theory Spec2Isabelle
  imports Complex_Main
begin

section \<open>Continuous k-nearest-neighbour graphs: the data model\<close>

text \<open>
  The module \<^verbatim>\<open>cknn/cknn.py\<close> works on two-dimensional numpy arrays and scipy sparse
  matrices. Both are modelled as lists of rows over the reals; a sparse matrix is the
  dense matrix of its entries, an absent entry being 0. Python exceptions are values of
  the type \<open>error\<close>, and a function that can raise returns \<open>error + 'a\<close>. Floating
  point numbers are read as reals.

  The routines of numpy, scipy, scikit-learn and networkx that the module calls are not
  part of the repository. Each is modelled by a definition of its own below: the graph
  routines after the contract the spec gives the external collaborators (radius
  neighbour graphs, connected-component labelling), the array operations as numpy and
  scipy carry them out on the arrays that the module hands them.
\<close>

type_synonym matrix = "real list list"

text \<open>An array of indices with three axes, as lines 314 to 316 build it.\<close>

type_synonym index_array = "nat list list list"

datatype error =
  ValueError string
  | IndexError string
  | GraphException string
  | ExternalError string

text \<open>The sentinel of line 15, \<^verbatim>\<open>INF = 1.0e308\<close> (\<open>INF\<close> is reserved syntax of HOL, hence
  the suffix).\<close>

definition INF_sentinel :: real where
  "INF_sentinel = 10 ^ 308"

text \<open>\<^verbatim>\<open>A.shape[0] == A.shape[1]\<close> for a two-dimensional array: every row is as long as
  the list of rows. \<open>shape\<close> lists the row lengths.\<close>

definition is_square :: "'a list list \<Rightarrow> bool" where
  "is_square M = list_all (\<lambda>row. length row = length M) M"

definition shape :: "'a list list \<Rightarrow> nat list" where
  "shape A = map length A"

text \<open>Running a list of computations in order; the first exception ends the run.\<close>

fun collect :: "('e + 'a) list \<Rightarrow> 'e + 'a list" where
  "collect [] = Inr []"
| "collect (x # xs) =
     (case x of
        Inl e \<Rightarrow> Inl e
      | Inr v \<Rightarrow> (case collect xs of Inl e \<Rightarrow> Inl e | Inr vs \<Rightarrow> Inr (v # vs)))"

subsection \<open>Array operations of numpy and scipy\<close>

text \<open>
  \<^verbatim>\<open>np.argmin\<close> of a flattened array is the position of the first occurrence of its
  least element (it raises on an empty array, which the callers below test first).
  \<^verbatim>\<open>np.argsort\<close> gives the positions in ascending order of the values, equal values in
  their original order. \<^verbatim>\<open>np.bincount\<close> counts the occurrences of \<open>0, 1, ..., max\<close>.
  \<^verbatim>\<open>A.nonzero()\<close> lists the positions of the non-zero entries row by row, and
  \<^verbatim>\<open>A[i, j] = v\<close> with two numbers stores one entry. \<^verbatim>\<open>A + B\<close> adds two sparse
  matrices of one shape.
\<close>

definition np_argmin :: "real list \<Rightarrow> nat" where
  "np_argmin xs = length (takeWhile (\<lambda>x. x \<noteq> min_list xs) xs)"

definition np_argsort :: "real list \<Rightarrow> nat list" where
  "np_argsort xs = map snd (sort_key fst (zip xs [0..<length xs]))"

definition np_bincount :: "nat list \<Rightarrow> nat list" where
  "np_bincount xs = (if xs = [] then [] else map (count_list xs) [0..<Suc (Max (set xs))])"

definition nonzero :: "matrix \<Rightarrow> (nat \<times> nat) list" where
  "nonzero A =
     concat (map (\<lambda>i. map (\<lambda>j. (i, j)) (filter (\<lambda>j. A ! i ! j \<noteq> 0) [0..<length (A ! i)]))
                 [0..<length A])"

definition set_entry :: "matrix \<Rightarrow> nat \<Rightarrow> nat \<Rightarrow> real \<Rightarrow> matrix" where
  "set_entry A i j v = A[i := (A ! i)[j := v]]"

definition set_diagonal :: "matrix \<Rightarrow> real \<Rightarrow> matrix" where
  "set_diagonal A v = map (\<lambda>i. (A ! i)[i := v]) [0..<length A]"

definition mat_add :: "matrix \<Rightarrow> matrix \<Rightarrow> matrix" where
  "mat_add A B = map2 (map2 (+)) A B"

definition zeros :: "nat \<Rightarrow> nat \<Rightarrow> matrix" where
  "zeros m n = replicate m (replicate n 0)"

text \<open>\<^verbatim>\<open>A.dot(A.T)\<close>: the matrix of the inner products of the rows of \<open>A\<close>.\<close>

definition dot_transpose :: "matrix \<Rightarrow> matrix" where
  "dot_transpose A = map (\<lambda>r. map (\<lambda>c. sum_list (map2 (*) r c)) A) A"

text \<open>
  Modelled from the spec: \<^verbatim>\<open>np.partition(A, kth)\<close> is numpy's. It rearranges every row
  so that the element at position \<open>kth\<close> is the one a full sort would put there, with
  nothing larger before it and nothing smaller after it ("partial selection, not full
  sort"); the order inside the two parts is left open. The model takes the sorted row,
  which is one such arrangement, and the only one when the row has three distinct values
  and \<open>kth = 1\<close>.
\<close>

definition np_partition :: "matrix \<Rightarrow> nat \<Rightarrow> matrix" where
  "np_partition A kth = map sort A"

text \<open>Python's \<^verbatim>\<open>int(x)\<close> on a float truncates towards zero.\<close>

definition py_int :: "real \<Rightarrow> int" where
  "py_int x = (if 0 \<le> x then \<lfloor>x\<rfloor> else \<lceil>x\<rceil>)"

text \<open>
  The truth value of an array, as \<^verbatim>\<open>if prev_indices:\<close> asks for it: numpy raises a
  ValueError for an array of more than one element, an array of one element is as true
  as that element, and an array without elements is false.
\<close>

definition truth_value :: "index_array \<Rightarrow> error + bool" where
  "truth_value a =
     (case concat (concat a) of
        [] \<Rightarrow> Inr False
      | [x] \<Rightarrow> Inr (x \<noteq> 0)
      | _ \<Rightarrow> Inl (ValueError
                ''The truth value of an array with more than one element is ambiguous''))"

text \<open>
  \<^verbatim>\<open>A[idx]\<close> for an array \<open>idx\<close> of integers with two axes: every number of \<open>idx\<close> is
  replaced by the row of \<open>A\<close> with that number, so the result has one axis more than
  \<open>A\<close>. A number that is not below the length of \<open>A\<close> is numpy's IndexError.
\<close>

definition take_rows :: "'a list \<Rightarrow> nat list list \<Rightarrow> error + 'a list list" where
  "take_rows A idx =
     collect (map (\<lambda>row. collect (map (\<lambda>p.
                if p < length A then Inr (A ! p)
                else Inl (IndexError ''index is out of bounds for axis 0'')) row)) idx)"

text \<open>
  \<^verbatim>\<open>A[i, j] = v\<close> with two arrays of indices: the entries \<open>(i[0], j[0])\<close>,
  \<open>(i[1], j[1])\<close>, ... are stored. Arrays of different lengths and an index outside the
  matrix are an IndexError.
\<close>

definition assign_entries :: "matrix \<Rightarrow> nat list \<Rightarrow> nat list \<Rightarrow> real \<Rightarrow> error + matrix" where
  "assign_entries A i j v =
     (if length i \<noteq> length j
      then Inl (IndexError ''shape mismatch: indexing arrays could not be broadcast together'')
      else if list_all (\<lambda>rc. fst rc < length A \<and> snd rc < length (A ! fst rc)) (zip i j)
      then Inr (fold (\<lambda>rc g. set_entry g (fst rc) (snd rc) v) (zip i j) A)
      else Inl (IndexError ''index out of range''))"

subsection \<open>The external graph routines\<close>

text \<open>
  Modelled from the spec: scikit-learn's \<^verbatim>\<open>radius_neighbors_graph(X, radius,
  metric='precomputed')\<close>, the "radius graph connecting all point pairs within a given
  distance threshold". With its defaults (connectivity mode, no self loops) the entry
  \<open>(i, j)\<close> is 1 when \<open>i \<noteq> j\<close> and \<open>X[i][j] \<le> radius\<close>, and 0 otherwise.
\<close>

definition radius_neighbors_graph :: "matrix \<Rightarrow> real \<Rightarrow> matrix" where
  "radius_neighbors_graph X radius =
     map (\<lambda>i. map (\<lambda>j. if i \<noteq> j \<and> X ! i ! j \<le> radius then 1 else 0) [0..<length X])
         [0..<length X]"

text \<open>
  networkx's \<^verbatim>\<open>has_path(G, source, target)\<close> answers for a graph object \<open>G\<close> and two of
  its nodes. Line 295 hands it the scipy matrix \<^verbatim>\<open>rng_conn\<close> and two arrays of indices.
  A matrix is no graph object and holds no nodes: networkx looks the source up in \<open>G\<close>,
  does not find it, and raises \<^verbatim>\<open>NodeNotFound\<close>. The model keeps the type of an answer
  that can be \<open>True\<close> or \<open>False\<close>, so that the loop around the call reads as the source
  does.
\<close>

definition has_path :: "matrix \<Rightarrow> nat list \<Rightarrow> nat list \<Rightarrow> error + bool" where
  "has_path G source target = Inl (ExternalError ''NodeNotFound'')"

text \<open>
  The path query in the words of the spec, the "path-existence query between two nodes of
  a directed graph": the nodes are the row numbers of the adjacency matrix, the edges
  its non-zero entries; a node reaches itself. The module never gets this answer; the
  definition serves to say what the spec expects of the pruning loop.
\<close>

definition reaches :: "matrix \<Rightarrow> nat \<Rightarrow> nat \<Rightarrow> bool" where
  "reaches G s t = ((s, t) \<in> (set (nonzero G))\<^sup>*)"

text \<open>
  Modelled from the spec: scipy's \<^verbatim>\<open>connected_components(A)\<close>, the "connected-component
  labelling of a sparse adjacency matrix". With scipy's defaults the components are
  those of the graph with the directions of its edges ignored, and they are numbered in
  the order of their least node. The model starts with every node in a component of its
  own (named by the node), merges the two components of every edge in turn, and then
  numbers the components in the order in which they are first seen. The result is the
  pair \<open>(n_components, labels)\<close>.
\<close>

definition merge_labels :: "nat list \<Rightarrow> nat \<times> nat \<Rightarrow> nat list" where
  "merge_labels ls e = map (\<lambda>l. if l = ls ! snd e then ls ! fst e else l) ls"

definition component_roots :: "matrix \<Rightarrow> nat list" where
  "component_roots G = foldl merge_labels [0..<length G] (nonzero G)"

definition first_seen :: "nat list \<Rightarrow> nat list" where
  "first_seen xs = rev (remdups (rev xs))"

definition position :: "nat list \<Rightarrow> nat \<Rightarrow> nat" where
  "position xs x = length (takeWhile (\<lambda>y. y \<noteq> x) xs)"

definition connected_components :: "matrix \<Rightarrow> nat \<times> nat list" where
  "connected_components G =
     (let roots = component_roots G; seen = first_seen roots
      in (length seen, map (position seen) roots))"

text \<open>Two nodes are weakly connected when a path of edges, each taken in either direction,
  joins them. The labelling above is proved to label exactly this relation.\<close>

definition weakly_connected :: "matrix \<Rightarrow> (nat \<times> nat) set" where
  "weakly_connected G = (set (nonzero G) \<union> (set (nonzero G))\<inverse>)\<^sup>*"

definition labels_describe :: "nat \<Rightarrow> nat list \<Rightarrow> (nat \<times> nat) set \<Rightarrow> bool" where
  "labels_describe N ls R \<longleftrightarrow>
     length ls = N \<and> (\<forall>u<N. \<forall>v<N. ls ! u = ls ! v \<longleftrightarrow> (u, v) \<in> (R \<union> R\<inverse>)\<^sup>*)"


section \<open>ClusterDistanceReducer: \<^verbatim>\<open>concat_cluster\<close>\<close>

text \<open>
  \<^verbatim>\<open>A[labels == p][:, labels == q].flatten()\<close>: the rows of \<open>A\<close> whose label is \<open>p\<close>,
  of these the columns whose label is \<open>q\<close>, read row by row. The boolean masks have the
  length of \<open>labels\<close>.
\<close>

definition mask_positions :: "nat list \<Rightarrow> nat \<Rightarrow> nat list" where
  "mask_positions labels p = filter (\<lambda>i. labels ! i = p) [0..<length labels]"

definition cropped_flat :: "'a list list \<Rightarrow> nat list \<Rightarrow> nat \<Rightarrow> nat \<Rightarrow> 'a list" where
  "cropped_flat A labels p q =
     concat (map (\<lambda>i. map (\<lambda>j. A ! i ! j) (mask_positions labels q))
                 (mask_positions labels p))"

text \<open>
  One entry of the reduced matrix, lines 29 to 37: the sentinel on the diagonal, otherwise
  the value of the cropped block at its argmin. A boolean mask of the wrong length is
  numpy's IndexError, the argmin of an empty block its ValueError.

  \<open>with_indices\<close> is the truth value of \<^verbatim>\<open>prev_indices\<close>. When it holds, the array has
  one element (see \<open>truth_value\<close>), so each of its axes has the length 1, and line 36
  indexes its first axis with the mask \<^verbatim>\<open>labels == i\<close>. That line is reached with
  \<open>i \<noteq> j\<close> and a block that is not empty, that is with a row labelled \<open>i\<close> and another
  one labelled \<open>j\<close>: the mask has two entries at least, and numpy raises its IndexError
  for a boolean mask that is longer than the axis.
\<close>

definition cluster_entry :: "matrix \<Rightarrow> nat list \<Rightarrow> bool \<Rightarrow> nat \<Rightarrow> nat \<Rightarrow> error + real" where
  "cluster_entry prev_dmatrix labels with_indices i j =
     (if i = j then Inr INF_sentinel
      else if length labels \<noteq> length prev_dmatrix
      then Inl (IndexError ''boolean index did not match indexed array'')
      else
        let cropped_dmatrix = cropped_flat prev_dmatrix labels i j in
        if cropped_dmatrix = []
        then Inl (ValueError ''attempt to get argmin of an empty sequence'')
        else
          let d_argmin = np_argmin cropped_dmatrix in
          if with_indices
          then Inl (IndexError ''boolean index did not match indexed array'')
          else Inr (cropped_dmatrix ! d_argmin))"

text \<open>
  \<^verbatim>\<open>concat_cluster(prev_dmatrix, n_components, labels, prev_indices=None)\<close>, lines 18 to
  42 (the method of lines 255 to 279 is the same code). The result is the pair of the
  reduced matrix and the reduced index array; the latter is \<open>None\<close> where the Python
  returns the matrix alone.

  Line 24 takes the truth value of \<^verbatim>\<open>prev_indices\<close> before any entry is computed.
  \<^verbatim>\<open>None\<close> is false. An array of more than one element, and such is the array of lines
  314 to 316 for every distance matrix with a row, ends the call with numpy's
  ValueError. An array of one element that is not 0 is true: the call then returns,
  beside the matrix, the array of line 25, and, since every entry off the diagonal
  raises (see \<open>cluster_entry\<close>), it returns only for \<open>n_components \<le> 1\<close> and with that
  array as \<^verbatim>\<open>np.empty\<close> left it; the model stores 0 in it.
\<close>

definition concat_cluster ::
  "matrix \<Rightarrow> nat \<Rightarrow> nat list \<Rightarrow> index_array option
     \<Rightarrow> error + (matrix \<times> index_array option)" where
  "concat_cluster prev_dmatrix n_components labels prev_indices =
     (if \<not> is_square prev_dmatrix
      then Inl (ValueError ''prev_dmatrix must be square matrix'')
      else
        case (case prev_indices of None \<Rightarrow> Inr False | Some a \<Rightarrow> truth_value a) of
          Inl e \<Rightarrow> Inl e
        | Inr with_indices \<Rightarrow>
            (case collect (map (\<lambda>i. collect (map (\<lambda>j.
                     cluster_entry prev_dmatrix labels with_indices i j) [0..<n_components]))
                   [0..<n_components]) of
               Inl e \<Rightarrow> Inl e
             | Inr next_dmatrix \<Rightarrow>
                 Inr (next_dmatrix,
                      if with_indices
                      then Some (replicate n_components (replicate n_components [0, 0]))
                      else None)))"

text \<open>The least entry of the block of cluster \<open>p\<close>'s rows and cluster \<open>q\<close>'s columns, and
  the matrix of these minima with the sentinel on its diagonal.\<close>

definition block_min :: "matrix \<Rightarrow> nat list \<Rightarrow> nat \<Rightarrow> nat \<Rightarrow> real" where
  "block_min M labels p q =
     Min {M ! i ! j | i j.
            i < length labels \<and> j < length labels \<and> labels ! i = p \<and> labels ! j = q}"

definition reduced_matrix :: "matrix \<Rightarrow> nat \<Rightarrow> nat list \<Rightarrow> matrix" where
  "reduced_matrix M C ls =
     map (\<lambda>p. map (\<lambda>q. if p = q then INF_sentinel else block_min M ls p q) [0..<C]) [0..<C]"

section \<open>DensityNormalizer: the ratio matrix\<close>

text \<open>
  Lines 184 to 187 of \<^verbatim>\<open>CkNearestNeighbors.cknneighbors_graph\<close>:
  \<^verbatim>\<open>darray_n_nbrs = np.partition(dmatrix, n_neighbors)\<close>,
  \<^verbatim>\<open>ratio_matrix = dmatrix / np.sqrt(darray_n_nbrs.dot(darray_n_nbrs.T))\<close>, then the
  diagonal is set to 0. The partitioned array keeps all its columns, so the divisor of
  entry \<open>(i, j)\<close> is the root of the inner product of the partitioned rows \<open>i\<close> and \<open>j\<close>.
  (Where numpy divides by zero it yields an infinity or a NaN; HOL yields 0. No theorem
  below divides by zero.)
\<close>

definition ratio_matrix :: "matrix \<Rightarrow> nat \<Rightarrow> matrix" where
  "ratio_matrix dmatrix n_neighbors =
     (let darray_n_nbrs = np_partition dmatrix n_neighbors;
          ratio = map2 (map2 (\<lambda>d g. d / sqrt g)) dmatrix (dot_transpose darray_n_nbrs)
      in set_diagonal ratio 0)"

text \<open>
  The ratio matrix in the words of the spec: \<open>a[i]\<close> is the entry that a sort of row \<open>i\<close>
  puts at position \<open>n\<close> (position 0 holds the point's distance to itself), and
  \<open>R[i][j] = D[i][j] / sqrt (a[i] * a[j])\<close> off the diagonal, 0 on it.
\<close>

definition nth_neighbor_distance :: "matrix \<Rightarrow> nat \<Rightarrow> nat \<Rightarrow> real" where
  "nth_neighbor_distance D n i = sort (D ! i) ! n"

definition ratio_matrix_spec :: "matrix \<Rightarrow> nat \<Rightarrow> matrix" where
  "ratio_matrix_spec D n =
     map (\<lambda>i. map (\<lambda>j. if i = j then 0
                         else D ! i ! j /
                              sqrt (nth_neighbor_distance D n i * nth_neighbor_distance D n j))
                  [0..<length D]) [0..<length D]"

section \<open>RedundantEdgePruner: \<^verbatim>\<open>cut_rng\<close>\<close>

text \<open>
  Lines 288 to 292, for the row \<open>i_row\<close> and the \<open>m\<close> edges that the base graph \<open>rng\<close> has
  in that row. \<^verbatim>\<open>r_rng_part\<close> and \<^verbatim>\<open>c_rng_part\<close> hold their row and column numbers.
  \<open>rng\<close> is a scipy sparse matrix, so \<^verbatim>\<open>rng[r_rng_part, c_rng_part]\<close> is a numpy matrix
  of one row with the \<open>m\<close> weights, and \<^verbatim>\<open>ind_indices\<close>, the argsort of its negation, is
  a matrix of one row as well. Line 291 lays the two index arrays out as the two rows of
  \<^verbatim>\<open>indices\<close>, and line 292 indexes these two rows with \<^verbatim>\<open>ind_indices\<close>: the result has
  the shape \<open>(1, m, m)\<close>, one block whose \<open>k\<close>-th row is the row of \<^verbatim>\<open>indices\<close> with the
  number \<open>ind_indices[0][k]\<close>. With three edges or more the argsort holds a number above
  1, and line 292 raises numpy's IndexError.
\<close>

definition loop_array :: "matrix \<Rightarrow> nat \<Rightarrow> error + index_array" where
  "loop_array rng i_row =
     (let part = filter (\<lambda>rc. fst rc = i_row) (nonzero rng);
          r_rng_part = map fst part;
          c_rng_part = map snd part;
          ind_indices = [np_argsort (map (\<lambda>rc. - (rng ! fst rc ! snd rc)) part)];
          indices = [r_rng_part, c_rng_part]
      in take_rows indices ind_indices)"

text \<open>
  The body of the loop, lines 293 to 298, for one item of the array and a path query
  \<open>q\<close> in the place of \<^verbatim>\<open>has_path\<close>. \<^verbatim>\<open>for i, j in indices\<close> unpacks the item, which
  must have two rows, into the index arrays \<open>i\<close> and \<open>j\<close>. The entries at \<open>(i, j)\<close> are
  set to 0. If the query reports a path from \<open>i\<close> to \<open>j\<close> or (asked only then) from \<open>j\<close>
  to \<open>i\<close>, the removal is accepted: the result is \<open>True\<close> with the graph as it is.
  Otherwise the entries are set to 1: the result is \<open>False\<close> with that graph. An
  exception of the query ends the call.
\<close>

type_synonym path_query = "matrix \<Rightarrow> nat list \<Rightarrow> nat list \<Rightarrow> error + bool"

fun loop_body :: "path_query \<Rightarrow> matrix \<Rightarrow> nat list list \<Rightarrow> error + (bool \<times> matrix)" where
  "loop_body q rng_conn [i, j] =
     (case assign_entries rng_conn i j 0 of
        Inl e \<Rightarrow> Inl e
      | Inr g0 \<Rightarrow>
          (case q g0 i j of
             Inl e \<Rightarrow> Inl e
           | Inr found \<Rightarrow>
               if found then Inr (True, g0)
               else (case q g0 j i of
                       Inl e \<Rightarrow> Inl e
                     | Inr found_back \<Rightarrow>
                         if found_back then Inr (True, g0)
                         else (case assign_entries g0 i j 1 of
                                 Inl e \<Rightarrow> Inl e
                               | Inr g1 \<Rightarrow> Inr (False, g1)))))"
| "loop_body q rng_conn item = Inl (ValueError ''wrong number of values to unpack'')"

text \<open>
  The loop of lines 293 to 300 over the items of the array: an accepted removal breaks
  the loop, a rejected one goes on to the next item, and the \<^verbatim>\<open>else\<close> of the \<^verbatim>\<open>for\<close>
  raises when the loop ends without a break.
\<close>

fun cut_loop :: "path_query \<Rightarrow> matrix \<Rightarrow> index_array \<Rightarrow> error + matrix" where
  "cut_loop q rng_conn [] = Inl (GraphException ''Difficult to find connected graph'')"
| "cut_loop q rng_conn (item # rest) =
     (case loop_body q rng_conn item of
        Inl e \<Rightarrow> Inl e
      | Inr (accepted, g) \<Rightarrow> if accepted then Inr g else cut_loop q g rest)"

text \<open>Lines 288 to 300 for one row, with the path query of the source.\<close>

definition cut_row :: "matrix \<Rightarrow> matrix \<Rightarrow> nat \<Rightarrow> error + matrix" where
  "cut_row rng rng_conn i_row =
     (case loop_array rng i_row of
        Inl e \<Rightarrow> Inl e
      | Inr indices \<Rightarrow> cut_loop has_path rng_conn indices)"

text \<open>The loop of lines 286 and 287 over \<^verbatim>\<open>enumerate(np.bincount(conn_row))\<close>: a row takes
  part when it holds a critical connection.\<close>

fun cut_rows :: "matrix \<Rightarrow> matrix \<Rightarrow> (nat \<times> nat) list \<Rightarrow> error + matrix" where
  "cut_rows rng rng_conn [] = Inr rng_conn"
| "cut_rows rng rng_conn ((i_row, n_conn) # rest) =
     (if n_conn > 0
      then (case cut_row rng rng_conn i_row of
              Inl e \<Rightarrow> Inl e
            | Inr g \<Rightarrow> cut_rows rng g rest)
      else cut_rows rng rng_conn rest)"

text \<open>\<^verbatim>\<open>cut_rng(rng, critical_conn)\<close>, lines 282 to 302 (and 45 to 65). Adding two sparse
  matrices of different shapes is scipy's ValueError.\<close>

definition cut_rng :: "matrix \<Rightarrow> matrix \<Rightarrow> error + matrix" where
  "cut_rng rng critical_conn =
     (if shape rng \<noteq> shape critical_conn then Inl (ValueError ''inconsistent shapes'')
      else
        let rng_conn = mat_add rng critical_conn;
            conn_row = map fst (nonzero critical_conn)
        in cut_rows rng rng_conn (enumerate 0 (np_bincount conn_row)))"




section \<open>ConnectivityEnforcer: \<^verbatim>\<open>connect_rng\<close>\<close>

text \<open>The class \<^verbatim>\<open>CkNearestNeighbors\<close>, lines 134 to 150: the options of the constructor
  and the graph \<^verbatim>\<open>ckng\<close> that \<^verbatim>\<open>cknneighbors_graph\<close> stores. \<^verbatim>\<open>t = 'inf'\<close> is \<open>None\<close>;
  a sparse and a dense result are told apart by their constructor.\<close>

datatype adjacency = Sparse matrix | Dense matrix

record cknn =
  self_n_neighbors :: int
  self_neighbors :: string
  self_delta :: "real option"
  self_k :: "int option"
  self_metric :: string
  self_t :: "real option"
  self_include_self :: bool
  self_is_sparse :: bool
  self_directed :: bool
  self_connected :: bool
  self_conn_type :: string
  self_verbose :: int
  self_ckng :: "adjacency option"

text \<open>The variables of the merging loop, lines 307 to 339.\<close>

record enforcer =
  e_radius :: real
  e_rng :: matrix
  e_n_components :: nat
  e_labels :: "nat list"
  e_cropped_dmatrix :: matrix
  e_indices :: "index_array option"
  e_rng_minimize :: "matrix option"

text \<open>
  Lines 307 to 318, the state before the loop: the base radius graph, its components,
  and in force mode (\<^verbatim>\<open>minimize\<close>) the empty matrix of critical connections and the
  index array of the shape \<open>(2, nd, nd)\<close>: its first plane is \<^verbatim>\<open>indtile\<close>, every row of
  which is \<open>0, 1, ..., nd - 1\<close>, and its second plane the transpose of \<^verbatim>\<open>indtile\<close>.
\<close>

definition enforcer_init :: "bool \<Rightarrow> matrix \<Rightarrow> real \<Rightarrow> enforcer" where
  "enforcer_init minimize dmatrix radius =
     (let rng = radius_neighbors_graph dmatrix radius;
          nd = length dmatrix;
          cc = connected_components rng
      in \<lparr> e_radius = radius, e_rng = rng, e_n_components = fst cc, e_labels = snd cc,
           e_cropped_dmatrix = dmatrix,
           e_indices = (if minimize
                        then Some [map (\<lambda>i. [0..<nd]) [0..<nd],
                                   map (\<lambda>i. replicate nd i) [0..<nd]]
                        else None),
           e_rng_minimize = (if minimize then Some (zeros nd nd) else None) \<rparr>)"

text \<open>
  One round of the loop, lines 320 to 339. In nature mode the matrix is reduced to the
  cluster distances, every cluster finds its nearest cluster (the argmin of its row),
  the radius becomes the largest of the row minima, and the radius graph of the reduced
  matrix is built; its components end the round. The argmin of an empty array raises.

  In force mode line 321 hands \<^verbatim>\<open>concat_cluster\<close> the index array and unpacks what comes
  back into \<^verbatim>\<open>cropped_dmatrix, indices\<close>. No round gets past that:
  \<^item> with the index array of lines 314 to 316, which has more than one element, the call
    raises at its line 24;
  \<^item> where the call returns the matrix alone (an index array that is \<open>None\<close> or false),
    line 321 unpacks the rows of the matrix: a matrix that has not two rows cannot be
    unpacked, and of one with two rows \<^verbatim>\<open>cropped_dmatrix\<close> is the first row, an array of
    one axis, of which line 326 cannot take the argmin along the axis 1;
  \<^item> where the call returns the matrix and an index array, the matrix has one row at
    most (see \<open>concat_cluster\<close>): line 326 raises for the matrix without rows, and for
    the matrix of one row line 333 cannot unpack the one row of
    \<^verbatim>\<open>indices[:, r_ptr, argmin_dmatrix]\<close> into \<^verbatim>\<open>r_ind, c_ind\<close>.

  So lines 328 to 334 never complete, and \<^verbatim>\<open>rng_minimize\<close> stays as line 312 made it.
\<close>

definition merge_round :: "bool \<Rightarrow> enforcer \<Rightarrow> error + enforcer" where
  "merge_round minimize s =
     (case concat_cluster (e_cropped_dmatrix s) (e_n_components s) (e_labels s)
             (if minimize then e_indices s else None) of
        Inl err \<Rightarrow> Inl err
      | Inr (cropped_dmatrix, indices) \<Rightarrow>
          if minimize
          then (case indices of
                  None \<Rightarrow>
                    if length cropped_dmatrix \<noteq> 2
                    then Inl (ValueError ''wrong number of values to unpack'')
                    else Inl (ExternalError
                                ''AxisError: axis 1 is out of bounds for array of dimension 1'')
                | Some ind \<Rightarrow>
                    if cropped_dmatrix = []
                    then Inl (ValueError ''attempt to get argmin of an empty sequence'')
                    else Inl (ValueError ''wrong number of values to unpack''))
          else
            if cropped_dmatrix = []
            then Inl (ValueError ''attempt to get argmin of an empty sequence'')
            else
              let argmin_dmatrix = map np_argmin cropped_dmatrix;
                  r_ptr = [0..<length cropped_dmatrix];
                  radius = Max (set (map (\<lambda>p. cropped_dmatrix ! p ! (argmin_dmatrix ! p)) r_ptr));
                  rng = radius_neighbors_graph cropped_dmatrix radius;
                  cc = connected_components rng
              in Inr (s\<lparr> e_radius := radius, e_rng := rng, e_n_components := fst cc,
                        e_labels := snd cc, e_cropped_dmatrix := cropped_dmatrix \<rparr>))"

text \<open>
  \<^verbatim>\<open>while n_components != 1\<close>, line 319. The Python loop has no bound; the model takes
  the number of rounds it may run as fuel and returns \<open>None\<close> when the fuel is used up
  with more than one component left.
\<close>

fun merge_loop :: "nat \<Rightarrow> bool \<Rightarrow> enforcer \<Rightarrow> (error + enforcer) option" where
  "merge_loop 0 minimize s = (if e_n_components s = 1 then Some (Inr s) else None)"
| "merge_loop (Suc fuel) minimize s =
     (if e_n_components s = 1 then Some (Inr s)
      else (case merge_round minimize s of
              Inl err \<Rightarrow> Some (Inl err)
            | Inr s' \<Rightarrow> merge_loop fuel minimize s'))"

text \<open>
  The method \<^verbatim>\<open>connect_rng(self, dmatrix, radius, minimize, same_nbrs, verbose)\<close>, lines
  305 to 354. \<^verbatim>\<open>check_array\<close> refuses an array without rows, and the neighbour graph
  routine a precomputed matrix that is not square. The result is the returned graph,
  the instance with the threshold it stores (line 351 or 353, nature mode only), and the
  radius that line 342 prints when \<^verbatim>\<open>verbose == 1\<close>. In force mode \<^verbatim>\<open>rng_minimize\<close>
  is the matrix of line 312; a state without it, which the loop never yields, gets
  Python's TypeError for the sum of a matrix and \<^verbatim>\<open>None\<close>.
\<close>

definition connect_rng ::
  "nat \<Rightarrow> cknn \<Rightarrow> matrix \<Rightarrow> real \<Rightarrow> bool \<Rightarrow> bool \<Rightarrow> int
     \<Rightarrow> (error + (matrix \<times> cknn \<times> real list)) option" where
  "connect_rng fuel self dmatrix radius minimize same_nbrs verbose =
     (if dmatrix = [] then Some (Inl (ValueError ''Found array with 0 sample(s)''))
      else if \<not> is_square dmatrix
      then Some (Inl (ValueError ''Precomputed matrix must be a square matrix''))
      else
        let s0 = enforcer_init minimize dmatrix radius; rng_orig = e_rng s0 in
        case merge_loop fuel minimize s0 of
          None \<Rightarrow> None
        | Some (Inl err) \<Rightarrow> Some (Inl err)
        | Some (Inr s) \<Rightarrow>
            let printed = (if verbose = 1 then [e_radius s] else []) in
            if minimize
            then (case e_rng_minimize s of
                    None \<Rightarrow> Some (Inl (ExternalError ''TypeError: unsupported operand''))
                  | Some rng_minimize \<Rightarrow>
                      if same_nbrs
                      then (case cut_rng rng_orig rng_minimize of
                              Inl err \<Rightarrow> Some (Inl err)
                            | Inr g \<Rightarrow> Some (Inr (g, self, printed)))
                      else Some (Inr (mat_add rng_orig rng_minimize, self, printed)))
            else
              let self' = (if self_neighbors self = ''delta''
                           then self\<lparr> self_delta := Some (e_radius s) \<rparr>
                           else self\<lparr> self_k := Some (py_int (e_radius s + 0.5)) \<rparr>)
              in Some (Inr (radius_neighbors_graph dmatrix (e_radius s), self', printed)))"

text \<open>
  What the loop of nature mode keeps true of its variables: the current matrix is
  square, the labels number its rows, and every component number below the count labels
  some row. The second invariant adds that the entries off the diagonal lie below the
  sentinel.
\<close>

definition enforcer_ok :: "enforcer \<Rightarrow> bool" where
  "enforcer_ok s \<longleftrightarrow>
     is_square (e_cropped_dmatrix s)
     \<and> length (e_labels s) = length (e_cropped_dmatrix s)
     \<and> (\<forall>p<e_n_components s. \<exists>i<length (e_cropped_dmatrix s). e_labels s ! i = p)"

definition below_sentinel :: "matrix \<Rightarrow> bool" where
  "below_sentinel M \<longleftrightarrow> (\<forall>i<length M. \<forall>j<length M. i \<noteq> j \<longrightarrow> M ! i ! j < INF_sentinel)"

definition enforcer_inv :: "enforcer \<Rightarrow> bool" where
  "enforcer_inv s \<longleftrightarrow> enforcer_ok s \<and> below_sentinel (e_cropped_dmatrix s)"

section \<open>GraphBuilder: the two functions \<^verbatim>\<open>cknneighbors_graph\<close>\<close>

text \<open>
  The routines the builder takes from its libraries and the model takes as parameters:
  \<^verbatim>\<open>squareform(pdist(X, metric))\<close> and
  \<^verbatim>\<open>kneighbors_graph(ratio_matrix, k, metric='precomputed')\<close>.
\<close>

record externals =
  ext_pdist :: "string \<Rightarrow> matrix \<Rightarrow> matrix"
  ext_kneighbors_graph :: "matrix \<Rightarrow> int \<Rightarrow> error + matrix"

text \<open>What the module-level function returns: the instance or its graph.\<close>

datatype result = Instance cknn | Graph adjacency

text \<open>
  Modelled from the spec: the neighbour graph routines are scikit-learn's. Handed
  \<^verbatim>\<open>None\<close> for the radius or the neighbour count they raise an exception of their own
  (a TypeError where the distances are compared with \<^verbatim>\<open>None\<close>, a parameter error where
  the value is validated first); the model has one error for it.
\<close>

definition missing_threshold :: error where
  "missing_threshold = ExternalError ''neighbor graph routine called with threshold None''"

text \<open>Lines 210 to 215: the entry \<open>(i, j)\<close> of the order matrix is the position of \<open>j\<close> in
  the argsort of row \<open>i\<close> of the ratio matrix.\<close>

definition order_matrix_of :: "matrix \<Rightarrow> matrix" where
  "order_matrix_of ratio =
     map (\<lambda>row. map (\<lambda>j. real (position (np_argsort row) j)) [0..<length row]) ratio"

text \<open>Lines 227 to 230: the graph is added to its transpose and every stored entry of
  the sum is set to 1.\<close>

definition symmetrize :: "matrix \<Rightarrow> matrix" where
  "symmetrize A =
     map (\<lambda>i. map (\<lambda>j. if A ! i ! j + A ! j ! i \<noteq> 0 then 1 else 0) [0..<length (A ! i)])
         [0..<length A]"

text \<open>
  Lines 242 to 245, for a finite \<open>t\<close>. \<^verbatim>\<open>mask\<close> is the pair of the row numbers and the
  column numbers of the edges. Line 243 gives every edge the weight
  \<open>exp (distance\<^sup>2 / t)\<close>. \<^verbatim>\<open>np.invert(mask)\<close> is the bitwise complement of these
  numbers, \<open>- x - 1\<close> for \<open>x\<close>, in an array of two rows; as an index of \<^verbatim>\<open>dmatrix\<close> it
  selects whole rows, a negative number counting from the end. So line 244 sets the row
  \<open>N - 1 - x\<close> of the \<open>N\<close> rows to 0 for every row number and every column number \<open>x\<close>
  of an edge, and every other entry that is no edge keeps its distance.
\<close>

definition weight_transform :: "matrix \<Rightarrow> matrix \<Rightarrow> real \<Rightarrow> matrix" where
  "weight_transform dmatrix adjacency t =
     (let mask = nonzero adjacency;
          weighted =
            map (\<lambda>i. map (\<lambda>j. if (i, j) \<in> set mask then exp ((dmatrix ! i ! j)\<^sup>2 / t)
                               else dmatrix ! i ! j)
                         [0..<length (dmatrix ! i)])
                [0..<length dmatrix];
          inverted = map (\<lambda>x. length dmatrix - 1 - x) (map fst mask @ map snd mask)
      in map (\<lambda>i. if i \<in> set inverted then map (\<lambda>w. 0) (weighted ! i) else weighted ! i)
             [0..<length dmatrix])"

definition drop_log ::
  "(error + (matrix \<times> cknn \<times> real list)) option \<Rightarrow> (error + (matrix \<times> cknn)) option" where
  "drop_log r = map_option (map_sum id (\<lambda>(g, self, printed). (g, self))) r"

text \<open>
  Lines 189 to 232, the choice of the graph. Lines 190 to 192 and 206 to 208 build a
  \<^verbatim>\<open>ValueError\<close> when \<^verbatim>\<open>not delta\<close> (or \<^verbatim>\<open>not k\<close>) holds, that is for \<^verbatim>\<open>None\<close> and for
  0, but there is no \<^verbatim>\<open>raise\<close> before it: the exception object is dropped and the
  function goes on. The model binds it to \<open>unraised\<close> and does not use it. The
  threshold then reaches the neighbour graph routine as it is.
\<close>

definition build_adjacency ::
  "externals \<Rightarrow> nat \<Rightarrow> cknn \<Rightarrow> matrix \<Rightarrow> (error + (matrix \<times> cknn)) option" where
  "build_adjacency ext fuel self ratio =
     (let neighbors = self_neighbors self; delta = self_delta self; k = self_k self;
          directed = self_directed self; connected = self_connected self;
          conn_type = self_conn_type self; verbose = self_verbose self
      in
        if neighbors = ''delta'' then
          let unraised = (if delta = None \<or> delta = Some 0
                          then [ValueError ''Invalid argument delta, or not passed delta'']
                          else [])
          in
            if connected then
              if conn_type = ''nature'' then
                (case delta of
                   None \<Rightarrow> Some (Inl missing_threshold)
                 | Some d \<Rightarrow>
                     drop_log (connect_rng fuel self ratio d False False verbose))
              else if conn_type = ''force'' then
                (case delta of
                   None \<Rightarrow> Some (Inl missing_threshold)
                 | Some d \<Rightarrow>
                     drop_log (connect_rng fuel self ratio d True False verbose))
              else Some (Inl (ValueError ''Invalid argument conn_type''))
            else
              (case delta of
                 None \<Rightarrow> Some (Inl missing_threshold)
               | Some d \<Rightarrow> Some (Inr (radius_neighbors_graph ratio d, self)))
        else if neighbors = ''k'' then
          let unraised = (if k = None \<or> k = Some 0
                          then [ValueError ''Invalid argument k, or not passed k'']
                          else []);
              built =
                (if connected then
                   let order_matrix = order_matrix_of ratio in
                   if conn_type = ''nature'' then
                     (case k of
                        None \<Rightarrow> Some (Inl missing_threshold)
                      | Some kv \<Rightarrow>
                          drop_log (connect_rng fuel self order_matrix (real_of_int kv)
                                      False False verbose))
                   else if conn_type = ''force'' then
                     (case k of
                        None \<Rightarrow> Some (Inl missing_threshold)
                      | Some kv \<Rightarrow>
                          drop_log (connect_rng fuel self order_matrix (real_of_int kv)
                                      True True verbose))
                   else Some (Inl (ValueError ''Invalid argument conn_type''))
                 else
                   (case k of
                      None \<Rightarrow> Some (Inl missing_threshold)
                    | Some kv \<Rightarrow>
                        (case ext_kneighbors_graph ext ratio kv of
                           Inl err \<Rightarrow> Some (Inl err)
                         | Inr g \<Rightarrow> Some (Inr (g, self)))))
          in
            if directed then built
            else map_option (map_sum id (\<lambda>(g, self'). (symmetrize g, self'))) built
        else Some (Inl (ValueError ''Invalid argument neighbors'')))"

text \<open>
  The method \<^verbatim>\<open>CkNearestNeighbors.cknneighbors_graph(self, X)\<close>, lines 152 to 252. \<open>X\<close>
  is a two-dimensional array, so the test of line 171 never fires and is left out. The
  method stores the graph in \<^verbatim>\<open>self.ckng\<close> as a sparse matrix and returns it, or its
  dense copy when \<^verbatim>\<open>is_sparse\<close> is false.
\<close>

definition method_cknneighbors_graph ::
  "externals \<Rightarrow> nat \<Rightarrow> cknn \<Rightarrow> matrix \<Rightarrow> (error + (adjacency \<times> cknn)) option" where
  "method_cknneighbors_graph ext fuel self X =
     (let n_neighbors = self_n_neighbors self; metric = self_metric self; t = self_t self;
          include_self = self_include_self self; is_sparse = self_is_sparse self;
          n_samples = int (length X)
      in
        if n_neighbors < 1 \<or> n_neighbors > n_samples - 1
        then Some (Inl (ValueError ''Invalid argument n_neighbors''))
        else if n_samples < 2
        then Some (Inl (ValueError ''At least 2 data points are required''))
        else if metric = ''precomputed'' \<and> \<not> is_square X
        then Some (Inl (ValueError ''X must be square matrix''))
        else
          let dmatrix = (if metric = ''precomputed'' then X else ext_pdist ext metric X);
              ratio = ratio_matrix dmatrix (nat n_neighbors)
          in
            case build_adjacency ext fuel self ratio of
              None \<Rightarrow> None
            | Some (Inl err) \<Rightarrow> Some (Inl err)
            | Some (Inr (adjacency, self1)) \<Rightarrow>
                let adjacency' = set_diagonal adjacency (if include_self then 1 else 0);
                    neigh = (case t of
                               None \<Rightarrow> adjacency'
                             | Some tv \<Rightarrow> weight_transform dmatrix adjacency' tv);
                    self2 = self1\<lparr> self_ckng := Some (Sparse neigh) \<rparr>
                in Some (Inr (if is_sparse then Sparse neigh else Dense neigh, self2)))"

text \<open>
  The module-level function \<^verbatim>\<open>cknneighbors_graph(X, n_neighbors, ...)\<close>, lines 115 to
  131: it builds the instance from its arguments, calls the method, drops what the
  method returns, and returns the instance or the attribute \<^verbatim>\<open>ckng\<close>.
\<close>

definition cknneighbors_graph ::
  "externals \<Rightarrow> nat \<Rightarrow> cknn \<Rightarrow> matrix \<Rightarrow> bool \<Rightarrow> (error + result) option" where
  "cknneighbors_graph ext fuel args X return_instance =
     (let cknn = args\<lparr> self_ckng := None \<rparr> in
      case method_cknneighbors_graph ext fuel cknn X of
        None \<Rightarrow> None
      | Some (Inl err) \<Rightarrow> Some (Inl err)
      | Some (Inr (returned, cknn')) \<Rightarrow>
          if return_instance then Some (Inr (Instance cknn'))
          else (case self_ckng cknn' of
                  None \<Rightarrow> Some (Inl (ExternalError ''AttributeError: ckng''))
                | Some ckng \<Rightarrow> Some (Inr (Graph ckng))))"

section \<open>Concrete inputs\<close>




text \<open>Three points, two of them at distance 1 and the third at distance 5 from both.\<close>

definition D3 :: matrix where
  "D3 = [[0, 1, 5], [1, 0, 5], [5, 5, 0]]"

text \<open>Two points whose distance, the float \<^verbatim>\<open>1.5e308\<close>, lies above the sentinel.\<close>

definition beyond :: real where
  "beyond = 15 * 10 ^ 307"

definition D_beyond :: matrix where
  "D_beyond = [[0, beyond], [beyond, 0]]"

definition stuck :: enforcer where
  "stuck = \<lparr> e_radius = INF_sentinel, e_rng = [[0, 0], [0, 0]],
     e_n_components = 2, e_labels = [0, 1],
     e_cropped_dmatrix = [[INF_sentinel, beyond], [beyond, INF_sentinel]],
     e_indices = None, e_rng_minimize = None \<rparr>"

text \<open>Two points at distance 2, and an instance with the defaults of the constructor but
  for a precomputed metric, one neighbour and \<^verbatim>\<open>delta = 1\<close>.\<close>

definition X2 :: matrix where
  "X2 = [[0, 2], [2, 0]]"

definition example_cknn :: cknn where
  "example_cknn = \<lparr> self_n_neighbors = 1, self_neighbors = ''delta'', self_delta = Some 1,
     self_k = None, self_metric = ''precomputed'', self_t = None, self_include_self = False,
     self_is_sparse = True, self_directed = False, self_connected = False,
     self_conn_type = ''nature'', self_verbose = 0, self_ckng = None \<rparr>"

section \<open>Properties of the array operations\<close>

lemma collect_map_Inr:
  "(\<And>x. x \<in> set xs \<Longrightarrow> f x = Inr (g x)) \<Longrightarrow> collect (map f xs) = Inr (map g xs)"
  by (induction xs) auto

lemma np_argmin_less: "xs \<noteq> [] \<Longrightarrow> np_argmin xs < length xs"
proof -
  assume ne: "xs \<noteq> []"
  then have "min_list xs \<in> set xs" by (simp add: min_list_Min)
  then have "takeWhile (\<lambda>x. x \<noteq> min_list xs) xs \<noteq> xs" by auto
  then show ?thesis unfolding np_argmin_def
    using length_takeWhile_le [of "\<lambda>x. x \<noteq> min_list xs" xs]
    by (metis le_neq_implies_less takeWhile_eq_take take_all order_refl)
qed

lemma np_argmin_nth: "xs \<noteq> [] \<Longrightarrow> xs ! np_argmin xs = Min (set xs)"
  using nth_length_takeWhile [of "\<lambda>x. x \<noteq> min_list xs" xs] np_argmin_less [of xs]
  by (simp add: np_argmin_def min_list_Min)

lemma nonzero_iff: "(i, j) \<in> set (nonzero A) \<longleftrightarrow> i < length A \<and> j < length (A ! i) \<and> A ! i ! j \<noteq> 0"
  by (auto simp: nonzero_def)

lemma length_set_entry [simp]: "length (set_entry A i j v) = length A"
  by (simp add: set_entry_def)







lemma py_int_round: "0 \<le> m \<Longrightarrow> py_int (real_of_int m + 0.5) = m"
  by (simp add: py_int_def)

section \<open>Paths and components\<close>

text \<open>
  The path query of the spec, \<open>reaches\<close>, can be run on the list of edges (the first
  lemma is its code equation). In a proof it is settled by a path (for a positive answer)
  or by a set of nodes that holds the source, is closed under the edges and misses the
  target (for a negative one).
\<close>

lemma reaches_trancl [code]:
  "reaches G s t \<longleftrightarrow> s = t \<or> (s, t) \<in> (set (nonzero G))\<^sup>+"
  by (auto simp: reaches_def rtrancl_eq_or_trancl)




text \<open>
  The labels that \<open>connected_components\<close> computes describe weak connectivity: merging
  the components of the two ends of an edge is adding that edge, in both directions, to
  the relation the labels describe.
\<close>

lemma closure_insert_edge:
  fixes R :: "(nat \<times> nat) set" and i j :: nat
  defines "S \<equiv> (R \<union> R\<inverse>)\<^sup>*" and "T \<equiv> (insert (i, j) R \<union> (insert (i, j) R)\<inverse>)\<^sup>*"
  shows "(u, v) \<in> T \<longleftrightarrow>
           (u, v) \<in> S \<or> ((u, i) \<in> S \<or> (u, j) \<in> S) \<and> ((i, v) \<in> S \<or> (j, v) \<in> S)"
proof
  assume "(u, v) \<in> T"
  then show "(u, v) \<in> S \<or> ((u, i) \<in> S \<or> (u, j) \<in> S) \<and> ((i, v) \<in> S \<or> (j, v) \<in> S)"
    unfolding T_def
  proof (induction rule: rtrancl_induct)
    case base
    then show ?case by (simp add: S_def)
  next
    case (step y z)
    from step.hyps(2) consider "(y, z) \<in> R \<union> R\<inverse>" | "y = i \<and> z = j" | "y = j \<and> z = i" by auto
    then show ?case
    proof cases
      case 1
      then have "\<And>x. (x, y) \<in> S \<Longrightarrow> (x, z) \<in> S" unfolding S_def by (meson rtrancl.rtrancl_into_rtrancl)
      with step.IH show ?thesis by blast
    next
      case 2
      have "(j, j) \<in> S" "(i, i) \<in> S" by (simp_all add: S_def)
      with 2 step.IH show ?thesis by blast
    next
      case 3
      have "(j, j) \<in> S" "(i, i) \<in> S" by (simp_all add: S_def)
      with 3 step.IH show ?thesis by blast
    qed
  qed
next
  have ST: "S \<subseteq> T" unfolding S_def T_def by (rule rtrancl_mono) auto
  have e1: "(i, j) \<in> T" and e2: "(j, i) \<in> T" unfolding T_def by auto
  have tr: "\<And>a b c. (a, b) \<in> T \<Longrightarrow> (b, c) \<in> T \<Longrightarrow> (a, c) \<in> T" unfolding T_def by (rule rtrancl_trans)
  assume "(u, v) \<in> S \<or> ((u, i) \<in> S \<or> (u, j) \<in> S) \<and> ((i, v) \<in> S \<or> (j, v) \<in> S)"
  then consider "(u, v) \<in> S" | "(u, i) \<in> S" "(i, v) \<in> S" | "(u, i) \<in> S" "(j, v) \<in> S"
    | "(u, j) \<in> S" "(i, v) \<in> S" | "(u, j) \<in> S" "(j, v) \<in> S" by blast
  then show "(u, v) \<in> T"
  proof cases
    case 1
    with ST show ?thesis by blast
  next
    case 2
    with ST have "(u, i) \<in> T" "(i, v) \<in> T" by blast+
    then show ?thesis by (rule tr)
  next
    case 3
    with ST have "(u, i) \<in> T" "(j, v) \<in> T" by blast+
    with e1 show ?thesis by (blast intro: tr)
  next
    case 4
    with ST have "(u, j) \<in> T" "(i, v) \<in> T" by blast+
    with e2 show ?thesis by (blast intro: tr)
  next
    case 5
    with ST have "(u, j) \<in> T" "(j, v) \<in> T" by blast+
    then show ?thesis by (rule tr)
  qed
qed

lemma merge_labels_nth:
  "u < length ls \<Longrightarrow> merge_labels ls e ! u = (if ls ! u = ls ! snd e then ls ! fst e else ls ! u)"
  by (simp add: merge_labels_def)

lemma length_merge_labels [simp]: "length (merge_labels ls e) = length ls"
  by (simp add: merge_labels_def)

lemma labels_describe_step:
  assumes inv: "labels_describe N ls R" and i: "i < N" and j: "j < N"
  shows "labels_describe N (merge_labels ls (i, j)) (insert (i, j) R)"
proof -
  let ?S = "(R \<union> R\<inverse>)\<^sup>*"
  from inv have len: "length ls = N"
    and eq: "\<And>u v. u < N \<Longrightarrow> v < N \<Longrightarrow> ls ! u = ls ! v \<longleftrightarrow> (u, v) \<in> ?S"
    by (simp_all add: labels_describe_def)
  have "merge_labels ls (i, j) ! u = merge_labels ls (i, j) ! v
          \<longleftrightarrow> (u, v) \<in> (insert (i, j) R \<union> (insert (i, j) R)\<inverse>)\<^sup>*"
    if u: "u < N" and v: "v < N" for u v
  proof -
    have "merge_labels ls (i, j) ! u = merge_labels ls (i, j) ! v \<longleftrightarrow>
            ls ! u = ls ! v \<or> (ls ! u = ls ! i \<or> ls ! u = ls ! j) \<and> (ls ! i = ls ! v \<or> ls ! j = ls ! v)"
      using u v len by (auto simp: merge_labels_nth)
    also have "\<dots> \<longleftrightarrow> (u, v) \<in> ?S \<or> ((u, i) \<in> ?S \<or> (u, j) \<in> ?S) \<and> ((i, v) \<in> ?S \<or> (j, v) \<in> ?S)"
      by (simp only: eq [OF u v] eq [OF u i] eq [OF u j] eq [OF i v] eq [OF j v])
    also have "\<dots> \<longleftrightarrow> (u, v) \<in> (insert (i, j) R \<union> (insert (i, j) R)\<inverse>)\<^sup>*"
      by (rule closure_insert_edge [symmetric])
    finally show ?thesis .
  qed
  with len show ?thesis by (simp add: labels_describe_def)
qed

lemma labels_describe_foldl:
  "labels_describe N ls R \<Longrightarrow> (\<And>e. e \<in> set es \<Longrightarrow> fst e < N \<and> snd e < N)
     \<Longrightarrow> labels_describe N (foldl merge_labels ls es) (R \<union> set es)"
proof (induction es arbitrary: ls R)
  case Nil
  then show ?case by simp
next
  case (Cons e es)
  obtain i j where e: "e = (i, j)" by (cases e)
  from Cons.prems(2) [of e] e have "i < N" "j < N" by simp_all
  from labels_describe_step [OF Cons.prems(1) this]
  have "labels_describe N (merge_labels ls e) (insert e R)" by (simp add: e)
  from Cons.IH [OF this] Cons.prems(2) show ?case by simp
qed

lemma nonzero_square_bound:
  "is_square G \<Longrightarrow> e \<in> set (nonzero G) \<Longrightarrow> fst e < length G \<and> snd e < length G"
  by (cases e) (auto simp: nonzero_iff is_square_def list_all_length)

lemma component_roots_describe:
  assumes "is_square G"
  shows "labels_describe (length G) (component_roots G) (set (nonzero G))"
proof -
  have "labels_describe (length G) [0..<length G] {}"
    by (simp add: labels_describe_def)
  from labels_describe_foldl [OF this, of "nonzero G"] nonzero_square_bound [OF assms]
  show ?thesis by (simp add: component_roots_def)
qed

lemma component_roots_iff:
  "is_square G \<Longrightarrow> u < length G \<Longrightarrow> v < length G
     \<Longrightarrow> component_roots G ! u = component_roots G ! v \<longleftrightarrow> (u, v) \<in> weakly_connected G"
  using component_roots_describe [of G] by (simp add: labels_describe_def weakly_connected_def)

lemma length_component_roots: "length (component_roots G) = length G"
proof -
  have "length (foldl merge_labels ls es) = length ls" for ls es
    by (induction es arbitrary: ls) simp_all
  then show ?thesis by (simp add: component_roots_def)
qed

lemma set_first_seen [simp]: "set (first_seen xs) = set xs"
  by (simp add: first_seen_def)

lemma distinct_first_seen [simp]: "distinct (first_seen xs)"
  by (simp add: first_seen_def)

lemma position_less: "x \<in> set xs \<Longrightarrow> position xs x < length xs"
  unfolding position_def
  by (metis (mono_tags, lifting) length_takeWhile_le le_neq_implies_less takeWhile_eq_all_conv
      takeWhile_eq_take take_all order_refl)

lemma nth_position: "x \<in> set xs \<Longrightarrow> xs ! position xs x = x"
  using nth_length_takeWhile [of "\<lambda>y. y \<noteq> x" xs] position_less [of x xs]
  by (simp add: position_def)

lemma position_nth: "distinct xs \<Longrightarrow> p < length xs \<Longrightarrow> position xs (xs ! p) = p"
  using nth_position [of "xs ! p" xs] position_less [of "xs ! p" xs]
  by (simp add: nth_eq_iff_index_eq)

lemma position_inj: "x \<in> set xs \<Longrightarrow> y \<in> set xs \<Longrightarrow> position xs x = position xs y \<longleftrightarrow> x = y"
  using nth_position by metis

lemma n_components_card:
  "fst (connected_components G) = card (set (component_roots G))"
  by (simp add: connected_components_def Let_def flip: distinct_card [OF distinct_first_seen])

lemma length_labels: "length (snd (connected_components G)) = length G"
  by (simp add: connected_components_def Let_def length_component_roots)

lemma labels_nth:
  "u < length G \<Longrightarrow> snd (connected_components G) ! u =
     position (first_seen (component_roots G)) (component_roots G ! u)"
  by (simp add: connected_components_def Let_def length_component_roots)

lemma labels_less:
  assumes "u < length G"
  shows "snd (connected_components G) ! u < fst (connected_components G)"
proof -
  from assms have "component_roots G ! u \<in> set (first_seen (component_roots G))"
    by (simp add: length_component_roots)
  from position_less [OF this] assms show ?thesis
    by (simp add: labels_nth) (simp add: connected_components_def Let_def)
qed

lemma labels_onto:
  assumes "p < fst (connected_components G)"
  shows "\<exists>u<length G. snd (connected_components G) ! u = p"
proof -
  let ?seen = "first_seen (component_roots G)"
  from assms have p: "p < length ?seen" by (simp add: connected_components_def Let_def)
  then have "?seen ! p \<in> set (component_roots G)" using nth_mem [OF p] by simp
  then obtain u where u: "u < length G" "component_roots G ! u = ?seen ! p"
    by (auto simp: in_set_conv_nth length_component_roots)
  with p have "snd (connected_components G) ! u = p"
    by (simp add: labels_nth position_nth)
  with u show ?thesis by blast
qed

lemma labels_eq_iff:
  assumes "is_square G" "u < length G" "v < length G"
  shows "snd (connected_components G) ! u = snd (connected_components G) ! v
           \<longleftrightarrow> (u, v) \<in> weakly_connected G"
proof -
  from assms have "component_roots G ! u \<in> set (first_seen (component_roots G))"
    "component_roots G ! v \<in> set (first_seen (component_roots G))"
    by (simp_all add: length_component_roots)
  from position_inj [OF this] assms show ?thesis
    by (simp add: labels_nth component_roots_iff)
qed

lemma n_components_le: "fst (connected_components G) \<le> length G"
  using card_length [of "component_roots G"] by (simp add: n_components_card length_component_roots)

lemma n_components_pos: "G \<noteq> [] \<Longrightarrow> 0 < fst (connected_components G)"
proof -
  assume "G \<noteq> []"
  then have "component_roots G \<noteq> []" using length_component_roots [of G] by auto
  then show ?thesis by (simp add: n_components_card card_gt_0_iff)
qed

lemma n_components_less:
  assumes "is_square G" "(i, j) \<in> set (nonzero G)" "i \<noteq> j"
  shows "fst (connected_components G) < length G"
proof -
  from nonzero_square_bound [OF assms(1,2)] have ij: "i < length G" "j < length G" by simp_all
  have "(i, j) \<in> weakly_connected G" using assms(2) by (auto simp: weakly_connected_def)
  with component_roots_iff [OF assms(1) ij] have "component_roots G ! i = component_roots G ! j"
    by simp
  with ij assms(3) have "\<not> distinct (component_roots G)"
    by (auto simp: distinct_conv_nth length_component_roots)
  then have "card (set (component_roots G)) \<noteq> length (component_roots G)"
    using card_distinct by blast
  with card_length [of "component_roots G"] show ?thesis
    by (simp add: n_components_card length_component_roots)
qed

lemma one_component_iff:
  assumes "is_square G"
  shows "fst (connected_components G) = 1 \<longleftrightarrow>
           G \<noteq> [] \<and> (\<forall>u<length G. \<forall>v<length G. (u, v) \<in> weakly_connected G)"
proof
  assume one: "fst (connected_components G) = 1"
  then have ne: "G \<noteq> []" using n_components_le [of G] by auto
  have "(u, v) \<in> weakly_connected G" if "u < length G" "v < length G" for u v
  proof -
    from labels_less [OF that(1)] labels_less [OF that(2)] one
    have "snd (connected_components G) ! u = snd (connected_components G) ! v" by simp
    with labels_eq_iff [OF assms that] show ?thesis by simp
  qed
  with ne show "G \<noteq> [] \<and> (\<forall>u<length G. \<forall>v<length G. (u, v) \<in> weakly_connected G)" by blast
next
  assume a: "G \<noteq> [] \<and> (\<forall>u<length G. \<forall>v<length G. (u, v) \<in> weakly_connected G)"
  then have pos: "0 < length G" by simp
  have "component_roots G ! u = component_roots G ! 0" if "u < length G" for u
    using a that pos by (simp add: component_roots_iff [OF assms])
  then have "set (component_roots G) \<subseteq> {component_roots G ! 0}"
    by (auto simp: in_set_conv_nth length_component_roots)
  then have "card (set (component_roots G)) \<le> 1"
    by (metis card_mono finite.emptyI finite.insertI card_1_singleton_iff le_refl
        is_singletonI is_singleton_altdef)
  with n_components_pos [of G] a show "fst (connected_components G) = 1"
    by (simp add: n_components_card)
qed

lemma is_square_radius_graph: "is_square (radius_neighbors_graph X r)"
  by (simp add: radius_neighbors_graph_def is_square_def list_all_length)

section \<open>The concrete inputs, evaluated\<close>


lemmas components_eval = connected_components_def component_roots_def merge_labels_def first_seen_def
  position_def

lemmas radius_graph_eval = radius_neighbors_graph_def upt_conv_Cons nonzero_def

lemmas round_eval = enforcer_init_def merge_round_def concat_cluster_def cluster_entry_def
  is_square_def cropped_flat_def mask_positions_def np_argmin_def Let_def






lemma sentinel_facts:
  "(1::real) < INF_sentinel" "(5::real) < INF_sentinel" "INF_sentinel < beyond" "1 < beyond"
  by (simp_all add: INF_sentinel_def beyond_def)

lemma D3_components: "connected_components (radius_neighbors_graph D3 1) = (2, [0, 0, 1])"
  by (simp add: D3_def radius_graph_eval components_eval Let_def)

lemma beyond_components:
  "connected_components (radius_neighbors_graph D_beyond 1) = (2, [0, 1])"
  using sentinel_facts by (simp add: D_beyond_def radius_graph_eval components_eval Let_def)

lemma D3_init: "enforcer_init False D3 1 =
   \<lparr>e_radius = 1, e_rng = [[0, 1, 0], [1, 0, 0], [0, 0, 0]],
        e_n_components = 2, e_labels = [0, 0, 1],
        e_cropped_dmatrix = [[0, 1, 5], [1, 0, 5], [5, 5, 0]],
        e_indices = None, e_rng_minimize = None\<rparr>"
  by (simp add: D3_def radius_graph_eval components_eval enforcer_init_def)

lemma beyond_init: "enforcer_init False D_beyond 1 =
   \<lparr>e_radius = 1, e_rng = [[0, 0], [0, 0]],
        e_n_components = 2, e_labels = [0, 1],
        e_cropped_dmatrix = D_beyond,
        e_indices = None, e_rng_minimize = None\<rparr>"
  using sentinel_facts
  by (simp add: beyond_components enforcer_init_def) (simp add: D_beyond_def radius_graph_eval)

lemma beyond_round1: "merge_round False (enforcer_init False D_beyond 1) = Inr stuck"
  using sentinel_facts
  by (simp add: beyond_init) (simp add: D_beyond_def stuck_def merge_round_def concat_cluster_def cluster_entry_def
  is_square_def cropped_flat_def mask_positions_def np_argmin_def Let_def radius_graph_eval components_eval)

lemma stuck_round: "merge_round False stuck = Inr stuck"
  using sentinel_facts
  by (simp add: stuck_def merge_round_def concat_cluster_def cluster_entry_def
  is_square_def cropped_flat_def mask_positions_def np_argmin_def Let_def radius_graph_eval components_eval)

lemma stuck_loop: "merge_loop fuel False stuck = None"
proof (induction fuel)
  case 0
  show ?case by (simp add: stuck_def)
next
  case (Suc fuel)
  have "e_n_components stuck \<noteq> 1" by (simp add: stuck_def)
  with Suc show ?case by (simp add: stuck_round)
qed

lemma ratio_X2: "ratio_matrix [[0, 2], [2, 0]] (Suc 0) = [[0, 1], [1, 0]]"
  by (simp add: ratio_matrix_def np_partition_def dot_transpose_def set_diagonal_def upt_conv_Cons)

section \<open>ClusterDistanceReducer: the reduced matrix holds the block minima\<close>

lemma set_mask_positions:
  "set (mask_positions labels p) = {i. i < length labels \<and> labels ! i = p}"
  by (auto simp: mask_positions_def)

lemma set_cropped_flat:
  "set (cropped_flat A labels p q) =
     {A ! i ! j | i j. i < length labels \<and> j < length labels \<and> labels ! i = p \<and> labels ! j = q}"
  by (auto simp: cropped_flat_def set_mask_positions)

lemma cropped_flat_nonempty:
  "i < length labels \<Longrightarrow> labels ! i = p \<Longrightarrow> j < length labels \<Longrightarrow> labels ! j = q
     \<Longrightarrow> cropped_flat A labels p q \<noteq> []"
  using set_cropped_flat [of A labels p q]
  by (metis (mono_tags, lifting) empty_iff mem_Collect_eq set_empty)

lemma cluster_entry_ok:
  assumes "length labels = length M" "\<forall>p<C. \<exists>i<length M. labels ! i = p" "p < C" "q < C"
  shows "cluster_entry M labels False p q =
           Inr (if p = q then INF_sentinel else block_min M labels p q)"
proof (cases "p = q")
  case True
  then show ?thesis by (simp add: cluster_entry_def)
next
  case False
  from assms obtain i j
    where "i < length labels" "labels ! i = p" "j < length labels" "labels ! j = q"
    by metis
  then have ne: "cropped_flat M labels p q \<noteq> []" by (rule cropped_flat_nonempty)
  show ?thesis using False ne assms(1)
    by (simp add: cluster_entry_def Let_def np_argmin_nth set_cropped_flat block_min_def)
qed

lemma concat_cluster_ok:
  assumes "is_square M" and "length labels = length M"
    and "\<forall>p<C. \<exists>i<length M. labels ! i = p"
  shows "concat_cluster M C labels None =
           Inr (map (\<lambda>p. map (\<lambda>q. if p = q then INF_sentinel else block_min M labels p q)
                               [0..<C]) [0..<C], None)"
proof -
  let ?g = "\<lambda>p q. if p = q then INF_sentinel else block_min M labels p q"
  have row: "collect (map (\<lambda>q. cluster_entry M labels False p q) [0..<C])
               = Inr (map (?g p) [0..<C])" if "p < C" for p
    by (rule collect_map_Inr) (use that assms in \<open>simp add: cluster_entry_ok [where C = C]\<close>)
  have all: "collect (map (\<lambda>p. collect (map (\<lambda>q. cluster_entry M labels False p q) [0..<C]))
               [0..<C]) = Inr (map (\<lambda>p. map (?g p) [0..<C]) [0..<C])"
    by (rule collect_map_Inr) (simp add: row)
  show ?thesis using assms(1) all by (simp add: concat_cluster_def)
qed

text \<open>
  With the index array that \<^verbatim>\<open>connect_rng\<close> builds in force mode, or any other of more
  than one element, the call raises at line 24, whatever the matrix and the labels.
\<close>

lemma truth_value_ambiguous:
  "1 < length (concat (concat a)) \<Longrightarrow>
     truth_value a = Inl (ValueError
       ''The truth value of an array with more than one element is ambiguous'')"
  by (cases "concat (concat a)") (auto simp: truth_value_def split: list.splits)

lemma concat_cluster_index_array_raises:
  "is_square M \<Longrightarrow> 1 < length (concat (concat a)) \<Longrightarrow>
     concat_cluster M C labels (Some a) = Inl (ValueError
       ''The truth value of an array with more than one element is ambiguous'')"
  by (simp add: concat_cluster_def truth_value_ambiguous)

text \<open>
  Claim C3. Let \<open>M\<close> be square, let \<open>labels\<close> give every row and column of \<open>M\<close> its
  cluster, and let each of the \<open>C\<close> clusters have a member (as the labels of a component
  count \<open>C\<close> do). Then \<^verbatim>\<open>concat_cluster(M, C, labels)\<close>, called without an index array as
  the claim has it, returns a matrix of \<open>C\<close> rows of length \<open>C\<close> whose diagonal holds the
  sentinel and whose entry \<open>(p, q)\<close>, \<open>p \<noteq> q\<close>, is the least \<open>M[i][j]\<close> over the rows \<open>i\<close>
  of cluster \<open>p\<close> and the columns \<open>j\<close> of cluster \<open>q\<close>.
\<close>

theorem concat_cluster_minimum:
  assumes "is_square M" and "length labels = length M"
    and "\<forall>p<C. \<exists>i<length M. labels ! i = p"
  shows "\<exists>M'. concat_cluster M C labels None = Inr (M', None) \<and> length M' = C \<and>
           (\<forall>p<C. length (M' ! p) = C \<and> M' ! p ! p = INF_sentinel \<and>
              (\<forall>q<C. q \<noteq> p \<longrightarrow> M' ! p ! q =
                 Min {M ! i ! j | i j.
                        i < length M \<and> j < length M \<and> labels ! i = p \<and> labels ! j = q}))"
  using assms by (simp add: concat_cluster_ok [OF assms] block_min_def)

text \<open>
  The spec's own test: four points in two clusters of two.
\<close>

theorem concat_cluster_minimum_witness:
  "is_square [[0, 1, 5, 6], [1, 0, 4, 7], [5, 4, 0, 2], [6, 7, 2, 0 :: real]]
   \<and> (\<exists>i<4. [0, 0, 1, 1 :: nat] ! i = 0) \<and> (\<exists>i<4. [0, 0, 1, 1 :: nat] ! i = 1)
   \<and> (\<exists>M'. concat_cluster [[0, 1, 5, 6], [1, 0, 4, 7], [5, 4, 0, 2], [6, 7, 2, 0]] 2
                  [0, 0, 1, 1] None = Inr (M', None)
        \<and> length M' = 2 \<and> M' ! 0 ! 0 = INF_sentinel \<and> M' ! 1 ! 1 = INF_sentinel
        \<and> M' ! 0 ! 1 = Min {[[0, 1, 5, 6], [1, 0, 4, 7], [5, 4, 0, 2], [6, 7, 2, 0]] ! i ! j
                              | i j. i < 4 \<and> j < 4 \<and> [0, 0, 1, 1 :: nat] ! i = 0
                                     \<and> [0, 0, 1, 1 :: nat] ! j = 1})"
proof -
  define M where "M = [[0, 1, 5, 6], [1, 0, 4, 7], [5, 4, 0, 2], [6, 7, 2, 0 :: real]]"
  define l where "l = [0, 0, 1, 1 :: nat]"
  have sq: "is_square M" by (simp add: is_square_def M_def)
  have len: "length l = length M" by (simp add: l_def M_def)
  have len4: "length M = 4" by (simp add: M_def)
  have e0: "\<exists>i<4. l ! i = 0" by (rule exI [of _ 0]) (simp add: l_def)
  have e1: "\<exists>i<4. l ! i = 1" by (rule exI [of _ 2]) (simp add: l_def)
  have cl: "\<forall>p<2. \<exists>i<length M. l ! i = p"
    using e0 e1 by (auto simp: less_2_cases_iff len4)
  from concat_cluster_minimum [OF sq len cl] obtain M' where
    r: "concat_cluster M 2 l None = Inr (M', None)" "length M' = 2"
    and a: "\<forall>p<2. length (M' ! p) = 2 \<and> M' ! p ! p = INF_sentinel \<and>
              (\<forall>q<2. q \<noteq> p \<longrightarrow> M' ! p ! q =
                 Min {M ! i ! j | i j.
                        i < length M \<and> j < length M \<and> l ! i = p \<and> l ! j = q})"
    by blast
  from a [rule_format, of 0] a [rule_format, of 1] 
  have d: "M' ! 0 ! 0 = INF_sentinel" "M' ! 1 ! 1 = INF_sentinel"
    by simp_all
  from a [rule_format, of 0] have "(\<forall>q<2. q \<noteq> 0 \<longrightarrow> M' ! 0 ! q =
                 Min {M ! i ! j | i j.
                        i < length M \<and> j < length M \<and> l ! i = 0 \<and> l ! j = q})" by simp
  from this [rule_format, of 1] have 
    "M' ! 0 ! 1 = Min {M ! i ! j | i j. i < 4 \<and> j < 4 \<and> l ! i = 0 \<and> l ! j = 1}"
    by (simp add: len4)
  with r sq e0 e1 d show ?thesis unfolding M_def l_def by blast
qed

section \<open>DensityNormalizer: the divisor is not the product of two neighbour distances\<close>

text \<open>
  Claim C7 says that the ratio matrix has the entries \<open>D[i][j] / sqrt (a[i] * a[j])\<close>,
  \<open>a[i]\<close> the \<open>n\<close>-th smallest value of row \<open>i\<close>. The code divides by the root of the
  inner product of the whole partitioned rows instead: line 184 keeps every column of
  the partitioned array where the name \<^verbatim>\<open>darray_n_nbrs\<close> and the claim want its column
  \<open>n\<close> alone. For the three points with the distances 1, 2 and 3 and one neighbour the
  claim gives the entry \<open>(0, 1)\<close> the value \<open>1 / sqrt (1 * 1) = 1\<close>, the code gives it
  \<open>1 / sqrt (0 * 0 + 1 * 1 + 2 * 3)\<close>.
\<close>

theorem ratio_matrix_gram_denominator:
  "ratio_matrix [[0, 1, 2], [1, 0, 3], [2, 3, 0]] 1 ! 0 ! 1 = 1 / sqrt 7
   \<and> ratio_matrix_spec [[0, 1, 2], [1, 0, 3], [2, 3, 0]] 1 ! 0 ! 1 = 1
   \<and> ratio_matrix [[0, 1, 2], [1, 0, 3], [2, 3, 0]] 1
       \<noteq> ratio_matrix_spec [[0, 1, 2], [1, 0, 3], [2, 3, 0]] 1"
  by (simp add: ratio_matrix_def np_partition_def dot_transpose_def set_diagonal_def
      ratio_matrix_spec_def nth_neighbor_distance_def upt_conv_Cons)

section \<open>RedundantEdgePruner\<close>

subsection \<open>The loop, for any path query\<close>







subsection \<open>The loop with the path query of the source\<close>








subsection \<open>Claim C1: which removals are accepted, and when a row ends\<close>




subsection \<open>Claim C5: pruning never disconnects the graph\<close>



subsection \<open>Claim C6: critical connections and the candidates\<close>



section \<open>ConnectivityEnforcer\<close>

lemma merge_loop_done: "e_n_components s = 1 \<Longrightarrow> merge_loop fuel minimize s = Some (Inr s)"
  by (cases fuel) simp_all

lemma length_reduced_matrix [simp]: "length (reduced_matrix M C ls) = C"
  by (simp add: reduced_matrix_def)

lemma reduced_matrix_row:
  "p < C \<Longrightarrow> reduced_matrix M C ls ! p =
     map (\<lambda>q. if p = q then INF_sentinel else block_min M ls p q) [0..<C]"
  by (simp add: reduced_matrix_def)

lemma reduced_matrix_nth:
  "p < C \<Longrightarrow> q < C \<Longrightarrow> reduced_matrix M C ls ! p ! q =
     (if p = q then INF_sentinel else block_min M ls p q)"
  by (simp add: reduced_matrix_def)

lemma is_square_reduced_matrix: "is_square (reduced_matrix M C ls)"
  by (simp add: is_square_def list_all_length reduced_matrix_row)

lemma enforcer_ok_concat_cluster:
  assumes "enforcer_ok s"
  shows "concat_cluster (e_cropped_dmatrix s) (e_n_components s) (e_labels s) None =
           Inr (reduced_matrix (e_cropped_dmatrix s) (e_n_components s) (e_labels s), None)"
  using assms unfolding enforcer_ok_def reduced_matrix_def
  by (intro concat_cluster_ok) simp_all

lemma row_minima:
  assumes "\<And>p. p < length A \<Longrightarrow> A ! p \<noteq> []"
  shows "set (map (\<lambda>p. A ! p ! (map np_argmin A ! p)) [0..<length A])
           = (\<lambda>p. Min (set (A ! p))) ` {..<length A}"
proof -
  have "A ! p ! (map np_argmin A ! p) = Min (set (A ! p))" if "p < length A" for p
    using that assms [OF that] by (simp add: np_argmin_nth)
  then show ?thesis by (auto simp: image_iff Bex_def)
qed

lemma merge_round_nature:
  assumes ok: "enforcer_ok s" and C: "0 < e_n_components s"
  defines "cdm \<equiv> reduced_matrix (e_cropped_dmatrix s) (e_n_components s) (e_labels s)"
  defines "r \<equiv> Max ((\<lambda>p. Min (set (cdm ! p))) ` {..<e_n_components s})"
  shows "merge_round False s =
           Inr (s\<lparr> e_radius := r, e_rng := radius_neighbors_graph cdm r,
                   e_n_components := fst (connected_components (radius_neighbors_graph cdm r)),
                   e_labels := snd (connected_components (radius_neighbors_graph cdm r)),
                   e_cropped_dmatrix := cdm \<rparr>)"
proof -
  have len: "length cdm = e_n_components s" by (simp add: cdm_def)
  with C have ne: "cdm \<noteq> []" by auto
  have rows: "cdm ! p \<noteq> []" if "p < length cdm" for p
    using that C by (simp add: cdm_def reduced_matrix_row)
  have "Max (set (map (\<lambda>p. cdm ! p ! (map np_argmin cdm ! p)) [0..<length cdm])) = r"
    using row_minima [OF rows] by (simp add: r_def len)
  then show ?thesis
    using ne by (simp add: merge_round_def enforcer_ok_concat_cluster [OF ok] Let_def
        flip: cdm_def)
qed

lemma connect_rng_nature_result:
  assumes "connect_rng fuel self dmatrix radius False same_nbrs verbose = Some (Inr (g, self', pr))"
  shows "\<exists>s. merge_loop fuel False (enforcer_init False dmatrix radius) = Some (Inr s)
           \<and> g = radius_neighbors_graph dmatrix (e_radius s)"
  using assms
  by (auto simp: connect_rng_def Let_def split: if_splits option.splits sum.splits)

lemma enforcer_init_ok:
  assumes "is_square dmatrix"
  shows "enforcer_ok (enforcer_init minimize dmatrix radius)"
proof -
  let ?g = "radius_neighbors_graph dmatrix radius"
  have l: "length ?g = length dmatrix" by (simp add: radius_neighbors_graph_def)
  show ?thesis
    using assms labels_onto [of _ ?g] length_labels [of ?g] l
    by (simp add: enforcer_ok_def enforcer_init_def Let_def)
qed

lemma block_min_below:
  assumes "below_sentinel M" "length ls = length M" "p \<noteq> q"
    and "i < length M" "ls ! i = p" "j < length M" "ls ! j = q"
  shows "block_min M ls p q < INF_sentinel"
proof -
  have ne: "cropped_flat M ls p q \<noteq> []"
    using assms by (intro cropped_flat_nonempty [of i ls p j q]) simp_all
  then have "Min (set (cropped_flat M ls p q)) \<in> set (cropped_flat M ls p q)"
    by (intro Min_in) simp_all
  then obtain a b where ab: "a < length ls" "b < length ls" "ls ! a = p" "ls ! b = q"
    "Min (set (cropped_flat M ls p q)) = M ! a ! b"
    unfolding set_cropped_flat by auto
  with assms(1-3) have "M ! a ! b < INF_sentinel" by (auto simp: below_sentinel_def)
  with ab(5) show ?thesis by (simp add: block_min_def set_cropped_flat)
qed

lemma below_sentinel_reduced:
  assumes "enforcer_ok s" "below_sentinel (e_cropped_dmatrix s)"
  shows "below_sentinel (reduced_matrix (e_cropped_dmatrix s) (e_n_components s) (e_labels s))"
proof -
  have "block_min (e_cropped_dmatrix s) (e_labels s) p q < INF_sentinel"
    if "p < e_n_components s" "q < e_n_components s" "p \<noteq> q" for p q
  proof -
    from assms(1) that obtain i j where
      "i < length (e_cropped_dmatrix s)" "e_labels s ! i = p"
      "j < length (e_cropped_dmatrix s)" "e_labels s ! j = q"
      unfolding enforcer_ok_def by metis
    with assms that(3) show ?thesis
      by (intro block_min_below [of _ _ p q i j]) (simp_all add: enforcer_ok_def)
  qed
  then show ?thesis by (simp add: below_sentinel_def reduced_matrix_nth)
qed

lemma argmin_off_diagonal:
  assumes "is_square A" "below_sentinel A" "1 < length A" "p < length A"
    and "A ! p ! p = INF_sentinel"
  shows "np_argmin (A ! p) \<noteq> p \<and> np_argmin (A ! p) < length A"
proof -
  from assms(1,4) have len: "length (A ! p) = length A"
    by (simp add: is_square_def list_all_length)
  with assms(4) have ne: "A ! p \<noteq> []" by auto
  from assms(3,4) obtain q where q: "q < length A" "q \<noteq> p"
    by (metis less_numeral_extra(1) less_trans nat_neq_iff zero_less_one)
  with assms(2,4) have "A ! p ! q < INF_sentinel" by (simp add: below_sentinel_def)
  moreover have "Min (set (A ! p)) \<le> A ! p ! q" using q len by (intro Min_le) simp_all
  ultimately have "A ! p ! np_argmin (A ! p) < INF_sentinel" by (simp add: np_argmin_nth [OF ne])
  with assms(5) np_argmin_less [OF ne] len show ?thesis by auto
qed

lemma components_ok:
  assumes "is_square g" "s' = s\<lparr> e_rng := g, e_n_components := fst (connected_components g),
             e_labels := snd (connected_components g), e_cropped_dmatrix := M \<rparr>"
    and "is_square M" "length M = length g"
  shows "enforcer_ok s'"
  using assms labels_onto [of _ g] length_labels [of g]
  by (simp add: enforcer_ok_def)

lemma merge_round_progress:
  assumes inv: "enforcer_inv s" and C: "1 < e_n_components s"
  shows "\<exists>s'. merge_round False s = Inr s' \<and> enforcer_inv s'
           \<and> 0 < e_n_components s' \<and> e_n_components s' < e_n_components s"
proof -
  let ?C = "e_n_components s"
  let ?cdm = "reduced_matrix (e_cropped_dmatrix s) ?C (e_labels s)"
  from inv have ok: "enforcer_ok s" and below: "below_sentinel (e_cropped_dmatrix s)"
    by (simp_all add: enforcer_inv_def)
  have sq: "is_square ?cdm" by (rule is_square_reduced_matrix)
  have bl: "below_sentinel ?cdm" using ok below by (rule below_sentinel_reduced)
  have len: "length ?cdm = ?C" by simp
  from C have C0: "0 < ?C" by simp
  have diag: "?cdm ! 0 ! 0 = INF_sentinel" using C0 by (simp add: reduced_matrix_nth)
  from argmin_off_diagonal [OF sq bl _ _ diag] C
  have a0: "np_argmin (?cdm ! 0) \<noteq> 0" "np_argmin (?cdm ! 0) < ?C" by simp_all
  have row0: "length (?cdm ! 0) = ?C" using C0 by (simp add: reduced_matrix_row)
  let ?r = "Max ((\<lambda>p. Min (set (?cdm ! p))) ` {..<?C})"
  let ?g = "radius_neighbors_graph ?cdm ?r"
  let ?s' = "s\<lparr> e_radius := ?r, e_rng := ?g,
                 e_n_components := fst (connected_components ?g),
                 e_labels := snd (connected_components ?g),
                 e_cropped_dmatrix := ?cdm \<rparr>"
  have round: "merge_round False s = Inr ?s'"
    using merge_round_nature [OF ok C0] by simp
  have lg: "length ?g = ?C" by (simp add: radius_neighbors_graph_def)
  have "?cdm ! 0 ! np_argmin (?cdm ! 0) = Min (set (?cdm ! 0))"
    using row0 C0 by (intro np_argmin_nth) auto
  also have "\<dots> \<le> ?r" using C0 by (intro Max_ge) auto
  finally have "?g ! 0 ! np_argmin (?cdm ! 0) = 1"
    using a0 C0 by (simp add: radius_neighbors_graph_def)
  then have edge: "(0, np_argmin (?cdm ! 0)) \<in> set (nonzero ?g)"
    using a0 C0 lg by (simp add: nonzero_iff) (simp add: radius_neighbors_graph_def)
  from n_components_less [OF is_square_radius_graph edge] a0(1) lg
  have less: "fst (connected_components ?g) < ?C" by simp
  have pos: "0 < fst (connected_components ?g)"
    using lg C0 by (intro n_components_pos) auto
  have "enforcer_ok ?s'"
    by (rule components_ok [where g = ?g and s = "s\<lparr>e_radius := ?r\<rparr>" and M = ?cdm])
      (simp_all add: is_square_radius_graph sq lg)
  with bl have "enforcer_inv ?s'" by (simp add: enforcer_inv_def)
  with round less pos show ?thesis by auto
qed

lemma merge_loop_reaches_one:
  "enforcer_inv s \<Longrightarrow> 0 < e_n_components s \<Longrightarrow> e_n_components s \<le> Suc fuel
     \<Longrightarrow> \<exists>s'. merge_loop fuel False s = Some (Inr s') \<and> e_n_components s' = 1"
proof (induction fuel arbitrary: s)
  case 0
  then show ?case by simp
next
  case (Suc fuel)
  show ?case
  proof (cases "e_n_components s = 1")
    case True
    then show ?thesis by simp
  next
    case False
    with Suc.prems have "1 < e_n_components s" by simp
    from merge_round_progress [OF Suc.prems(1) this] obtain s1 where
      s1: "merge_round False s = Inr s1" "enforcer_inv s1"
      "0 < e_n_components s1" "e_n_components s1 < e_n_components s" by blast
    with Suc.prems(3) have "e_n_components s1 \<le> Suc fuel" by simp
    from Suc.IH [OF s1(2,3) this] False s1(1) show ?thesis by simp
  qed
qed

lemma enforcer_init_inv:
  assumes "is_square dmatrix" "below_sentinel dmatrix"
  shows "enforcer_inv (enforcer_init minimize dmatrix radius)"
  using enforcer_init_ok [OF assms(1), of minimize radius] assms(2)
  by (simp add: enforcer_inv_def) (simp add: enforcer_init_def Let_def)

text \<open>
  In force mode the first round raises, whatever the distances: line 321 hands
  \<^verbatim>\<open>concat_cluster\<close> the index array of lines 314 to 316, and line 24 asks for its truth
  value. So with more than one component in the base graph the loop of force mode ends
  in numpy's ValueError, and so does \<^verbatim>\<open>connect_rng\<close>.
\<close>

lemma index_array_size:
  "length (concat (concat [map (\<lambda>i. [0..<nd]) [0..<nd], map (\<lambda>i. replicate nd i) [0..<nd]]))
     = 2 * (nd * nd)"
  by (simp add: length_concat comp_def sum_list_triv)

lemma force_round_raises:
  assumes "is_square dmatrix" and "dmatrix \<noteq> []"
  shows "merge_round True (enforcer_init True dmatrix radius) = Inl (ValueError
           ''The truth value of an array with more than one element is ambiguous'')"
proof -
  let ?nd = "length dmatrix"
  let ?a = "[map (\<lambda>i. [0..<?nd]) [0..<?nd], map (\<lambda>i. replicate ?nd i) [0..<?nd]]"
  from assms(2) have "1 < 2 * (?nd * ?nd)" by (cases dmatrix) simp_all
  then have "1 < length (concat (concat ?a))" unfolding index_array_size .
  from concat_cluster_index_array_raises [OF assms(1) this] show ?thesis
    by (simp add: merge_round_def enforcer_init_def Let_def)
qed

lemma force_loop_raises:
  assumes "is_square dmatrix" and "dmatrix \<noteq> []"
    and "fst (connected_components (radius_neighbors_graph dmatrix radius)) \<noteq> 1"
  shows "merge_loop (Suc fuel) True (enforcer_init True dmatrix radius) = Some (Inl (ValueError
           ''The truth value of an array with more than one element is ambiguous''))"
proof -
  from assms(3) have "e_n_components (enforcer_init True dmatrix radius) \<noteq> 1"
    by (simp add: enforcer_init_def Let_def)
  then show ?thesis by (simp add: force_round_raises [OF assms(1,2)])
qed

lemma connect_rng_force_raises:
  assumes "is_square dmatrix" and "dmatrix \<noteq> []"
    and "fst (connected_components (radius_neighbors_graph dmatrix radius)) \<noteq> 1"
  shows "connect_rng (Suc fuel) self dmatrix radius True same_nbrs verbose =
           Some (Inl (ValueError
             ''The truth value of an array with more than one element is ambiguous''))"
  using assms(1,2)
  by (simp add: connect_rng_def Let_def force_loop_raises [OF assms] del: merge_loop.simps)

subsection \<open>Claim C2: the round of nature mode\<close>

text \<open>
  Claim C2 as it is stated fails in its second half. The new radius is the largest of
  the row minima of the cluster distance matrix, but the graph that the round builds at
  this radius is the radius graph of the cluster distance matrix, one node for each
  cluster, and not of the original distance matrix. For the three points of \<open>D3\<close> the
  round finds two clusters and the radius 5 and builds a graph on two nodes; the radius
  graph of \<open>D3\<close> at 5 has three.
\<close>

theorem nature_round_graph_is_cluster_level:
  "\<exists>s'. merge_round False (enforcer_init False D3 1) = Inr s'
      \<and> e_radius s' = 5 \<and> e_rng s' = [[0, 1], [1, 0]]
      \<and> radius_neighbors_graph D3 5 = [[0, 1, 1], [1, 0, 1], [1, 1, 0]]
      \<and> e_rng s' \<noteq> radius_neighbors_graph D3 (e_radius s')"
  using sentinel_facts by (simp add: D3_def radius_graph_eval components_eval round_eval)

text \<open>
  Claim C2, amended. In nature mode a round that starts with more than one component,
  in a state as the loop keeps it (the current matrix square, the labels numbering its
  rows, every component number below the count in use), reduces the current matrix to the cluster distance matrix \<open>cdm\<close>, sets the radius to the
  maximum over the clusters \<open>p\<close> of the least entry of row \<open>p\<close> of \<open>cdm\<close> (the sentinel on
  the diagonal included), and builds the radius graph of \<open>cdm\<close> at this radius, whose
  components are the clusters of the next round. The original distance matrix is used
  once, after the loop: what \<^verbatim>\<open>connect_rng\<close> returns in nature mode is its radius graph
  at the radius the loop ends with (line 354).
\<close>

theorem nature_round_threshold:
  assumes "enforcer_ok s" and "1 < e_n_components s"
  shows "(\<exists>cdm s'. concat_cluster (e_cropped_dmatrix s) (e_n_components s) (e_labels s) None
                      = Inr (cdm, None)
           \<and> merge_round False s = Inr s'
           \<and> e_cropped_dmatrix s' = cdm
           \<and> e_radius s' = Max ((\<lambda>p. Min (set (cdm ! p))) ` {..<e_n_components s})
           \<and> e_rng s' = radius_neighbors_graph cdm (e_radius s')
           \<and> (e_n_components s', e_labels s') = connected_components (e_rng s'))
         \<and> (\<forall>fuel self dmatrix radius same_nbrs verbose g self' pr.
               connect_rng fuel self dmatrix radius False same_nbrs verbose
                 = Some (Inr (g, self', pr)) \<longrightarrow>
               (\<exists>s. merge_loop fuel False (enforcer_init False dmatrix radius) = Some (Inr s)
                  \<and> g = radius_neighbors_graph dmatrix (e_radius s)))"
proof -
  from assms(2) have "0 < e_n_components s" by simp
  from merge_round_nature [OF assms(1) this] enforcer_ok_concat_cluster [OF assms(1)]
  have "\<exists>cdm s'. concat_cluster (e_cropped_dmatrix s) (e_n_components s) (e_labels s) None
                      = Inr (cdm, None)
           \<and> merge_round False s = Inr s'
           \<and> e_cropped_dmatrix s' = cdm
           \<and> e_radius s' = Max ((\<lambda>p. Min (set (cdm ! p))) ` {..<e_n_components s})
           \<and> e_rng s' = radius_neighbors_graph cdm (e_radius s')
           \<and> (e_n_components s', e_labels s') = connected_components (e_rng s')"
    by simp
  then show ?thesis using connect_rng_nature_result by blast
qed

theorem nature_round_threshold_witness:
  "enforcer_ok (enforcer_init False D3 1) \<and> 1 < e_n_components (enforcer_init False D3 1)
   \<and> (\<exists>cdm s'. concat_cluster D3 2 [0, 0, 1] None = Inr (cdm, None)
         \<and> merge_round False (enforcer_init False D3 1) = Inr s'
         \<and> e_cropped_dmatrix s' = cdm
         \<and> e_radius s' = Max ((\<lambda>p. Min (set (cdm ! p))) ` {..<2})
         \<and> e_rng s' = radius_neighbors_graph cdm (e_radius s'))"
proof -
  have ok: "enforcer_ok (enforcer_init False D3 1)"
    by (rule enforcer_init_ok) (simp add: D3_def is_square_def)
  have n: "1 < e_n_components (enforcer_init False D3 1)" by (simp add: D3_init)
  from nature_round_threshold [OF ok n, THEN conjunct1] ok n show ?thesis
    by (simp add: D3_init) (simp add: D3_def, blast)
qed

subsection \<open>Claim C4: the loop ends\<close>

text \<open>
  Claim C4 as it is stated fails for a distance above the sentinel \<^verbatim>\<open>INF = 1.0e308\<close>.
  For two points at the distance \<^verbatim>\<open>1.5e308\<close> and the radius 1 the least entry of either
  row of the cluster distance matrix is the sentinel on its diagonal; at that radius the
  two clusters are not joined, the round ends where it began, and the loop runs for
  ever: no amount of fuel makes it return.
\<close>

theorem merge_loop_diverges_beyond_sentinel:
  "is_square D_beyond
   \<and> fst (connected_components (radius_neighbors_graph D_beyond 1)) = 2
   \<and> (\<forall>fuel. merge_loop fuel False (enforcer_init False D_beyond 1) = None)
   \<and> (\<forall>fuel. connect_rng fuel example_cknn D_beyond 1 False False 0 = None)"
proof -
  have sq: "is_square D_beyond" by (simp add: D_beyond_def is_square_def)
  have ne: "D_beyond \<noteq> []" by (simp add: D_beyond_def)
  have two: "fst (connected_components (radius_neighbors_graph D_beyond 1)) = 2"
    by (simp add: beyond_components)
  have loop: "merge_loop fuel False (enforcer_init False D_beyond 1) = None" for fuel
  proof (cases fuel)
    case 0
    then show ?thesis by (simp add: beyond_init)
  next
    case (Suc n)
    have "e_n_components (enforcer_init False D_beyond 1) \<noteq> 1" by (simp add: beyond_init)
    with Suc show ?thesis by (simp add: beyond_round1 stuck_loop)
  qed
  then have "connect_rng fuel example_cknn D_beyond 1 False False 0 = None" for fuel
    using sq ne by (simp add: connect_rng_def Let_def)
  with sq two loop show ?thesis by blast
qed

text \<open>
  Claim C4, amended to nature mode and to distances below the sentinel. Let the distance
  matrix be square with every entry off the diagonal below the sentinel, and let the
  base graph have \<open>C \<ge> 2\<close> components. Then the loop of nature mode returns within
  \<open>C - 1\<close> rounds with one component left; and every round of nature mode that starts
  from a state of the loop with more than one component ends without an exception in a
  state of the loop with fewer components.
\<close>

theorem merge_loop_terminates:
  assumes "is_square dmatrix" and "below_sentinel dmatrix"
    and "C = fst (connected_components (radius_neighbors_graph dmatrix radius))" and "2 \<le> C"
  shows "(\<exists>s'. merge_loop (C - 1) False (enforcer_init False dmatrix radius) = Some (Inr s')
            \<and> e_n_components s' = 1)
         \<and> (\<forall>s. enforcer_inv s \<and> 1 < e_n_components s \<longrightarrow>
               (\<exists>s'. merge_round False s = Inr s' \<and> enforcer_inv s'
                  \<and> e_n_components s' < e_n_components s))"
proof
  let ?s0 = "enforcer_init False dmatrix radius"
  have n: "e_n_components ?s0 = C" using assms(3) by (simp add: enforcer_init_def Let_def)
  with assms(4) have "0 < e_n_components ?s0" "e_n_components ?s0 \<le> Suc (C - 1)" by simp_all
  from merge_loop_reaches_one [OF enforcer_init_inv [OF assms(1,2)] this]
  show "\<exists>s'. merge_loop (C - 1) False ?s0 = Some (Inr s') \<and> e_n_components s' = 1" .
next
  show "\<forall>s. enforcer_inv s \<and> 1 < e_n_components s \<longrightarrow>
               (\<exists>s'. merge_round False s = Inr s' \<and> enforcer_inv s'
                  \<and> e_n_components s' < e_n_components s)"
    using merge_round_progress by blast
qed

theorem merge_loop_terminates_witness:
  "is_square D3 \<and> below_sentinel D3
   \<and> fst (connected_components (radius_neighbors_graph D3 1)) = 2
   \<and> (\<exists>s'. merge_loop 1 False (enforcer_init False D3 1) = Some (Inr s')
         \<and> e_n_components s' = 1)"
proof -
  have sq: "is_square D3" by (simp add: D3_def is_square_def)
  have bs: "below_sentinel D3"
    using sentinel_facts by (simp add: below_sentinel_def D3_def numeral_3_eq_3 All_less_Suc)
  have two: "2 = fst (connected_components (radius_neighbors_graph D3 1))"
    by (simp add: D3_components)
  from merge_loop_terminates [OF sq bs two] sq bs two show ?thesis by simp
qed

subsection \<open>Claim C8: an input that is connected already\<close>

text \<open>
  Claim C8. In nature mode, if the base radius graph of a square distance matrix has one
  component, \<^verbatim>\<open>connect_rng\<close> returns this base graph whatever the fuel, prints the
  input radius when it prints, and stores the input threshold: as \<^verbatim>\<open>delta\<close> when the
  instance works with \<^verbatim>\<open>neighbors = 'delta'\<close>, and otherwise as \<^verbatim>\<open>k\<close>, rounded by
  \<^verbatim>\<open>int(radius + 0.5)\<close>, which gives a neighbour count (a whole number that is not
  negative) back as it is.
\<close>

theorem connect_rng_idempotent_on_connected:
  assumes "is_square dmatrix"
    and "fst (connected_components (radius_neighbors_graph dmatrix radius)) = 1"
  shows "\<exists>self'. connect_rng fuel self dmatrix radius False same_nbrs verbose =
             Some (Inr (radius_neighbors_graph dmatrix radius, self',
                        if verbose = 1 then [radius] else []))
           \<and> (self_neighbors self = ''delta'' \<longrightarrow> self_delta self' = Some radius)
           \<and> (self_neighbors self \<noteq> ''delta'' \<longrightarrow>
                 (\<forall>m. 0 \<le> m \<and> radius = real_of_int m \<longrightarrow> self_k self' = Some m))"
proof -
  have ne: "dmatrix \<noteq> []"
  proof
    assume "dmatrix = []"
    then have "fst (connected_components (radius_neighbors_graph dmatrix radius)) = 0"
      by (simp add: radius_neighbors_graph_def connected_components_def component_roots_def
          nonzero_def first_seen_def)
    with assms(2) show False by simp
  qed
  let ?s0 = "enforcer_init False dmatrix radius"
  have n: "e_n_components ?s0 = 1" "e_radius ?s0 = radius"
    using assms(2) by (simp_all add: enforcer_init_def Let_def)
  have loop: "merge_loop fuel False ?s0 = Some (Inr ?s0)" using n(1) by (rule merge_loop_done)
  show ?thesis
    using ne assms(1) n(2) py_int_round
    by (cases "self_neighbors self = ''delta''") (simp_all add: connect_rng_def loop Let_def)
qed

theorem connect_rng_idempotent_on_connected_witness:
  "is_square [[0, 1], [1, 0 :: real]]
   \<and> fst (connected_components (radius_neighbors_graph [[0, 1], [1, 0]] 1)) = 1
   \<and> (\<exists>self'. connect_rng 0 example_cknn [[0, 1], [1, 0]] 1 False False 0 =
                 Some (Inr (radius_neighbors_graph [[0, 1], [1, 0]] 1, self', []))
        \<and> self_delta self' = Some 1)"
proof -
  have sq: "is_square [[0, 1], [1, 0 :: real]]" by (simp add: is_square_def)
  have one: "fst (connected_components (radius_neighbors_graph [[0, 1], [1, 0]] 1)) = 1"
    by (simp add: radius_graph_eval components_eval)
  have d: "self_neighbors example_cknn = ''delta''" by (simp add: example_cknn_def)
  from connect_rng_idempotent_on_connected [OF sq one, of 0 example_cknn False 0] d sq one
  show ?thesis by auto
qed

section \<open>GraphBuilder\<close>

subsection \<open>Claim C9: a missing threshold\<close>

text \<open>
  Claim C9 says that a call with \<^verbatim>\<open>neighbors = 'delta'\<close> and no \<^verbatim>\<open>delta\<close> (or with
  \<^verbatim>\<open>neighbors = 'k'\<close> and no \<^verbatim>\<open>k\<close>) fails with the builder's own ValueError before
  anything is computed. The code builds that ValueError and does not raise it (lines
  191 and 207 lack the \<^verbatim>\<open>raise\<close> that lines 200, 222 and 232 have). The ratio matrix is
  computed, the neighbour graph routine is called with \<^verbatim>\<open>None\<close>, and the exception that
  ends the call is the routine's, not a ValueError of the builder.
\<close>

theorem missing_threshold_not_rejected:
  "method_cknneighbors_graph ext fuel
       (example_cknn\<lparr> self_delta := None \<rparr>) X2
     = Some (Inl missing_threshold)
   \<and> method_cknneighbors_graph ext fuel
       (example_cknn\<lparr> self_neighbors := ''k'', self_k := None \<rparr>) X2
     = Some (Inl missing_threshold)
   \<and> cknneighbors_graph ext fuel
       (example_cknn\<lparr> self_delta := None \<rparr>) X2 False
     = Some (Inl missing_threshold)
   \<and> (\<forall>msg. missing_threshold \<noteq> ValueError msg)"
  by (simp add: method_cknneighbors_graph_def cknneighbors_graph_def build_adjacency_def
      example_cknn_def X2_def ratio_X2 missing_threshold_def is_square_def Let_def)

subsection \<open>Claim C10: the representation of the result\<close>

text \<open>
  Claim C10 says that without \<^verbatim>\<open>return_instance\<close> the module-level function returns a
  dense graph when \<^verbatim>\<open>is_sparse\<close> is false. The method does so, but the module-level
  function drops what the method returns and returns the attribute \<^verbatim>\<open>ckng\<close>, which is
  the sparse matrix whatever \<^verbatim>\<open>is_sparse\<close> says.
\<close>

theorem module_function_ignores_is_sparse:
  "cknneighbors_graph ext fuel
       (example_cknn\<lparr> self_is_sparse := False \<rparr>) X2 False
     = Some (Inr (Graph (Sparse [[0, 1], [1, 0]])))
   \<and> (\<exists>self'. method_cknneighbors_graph ext fuel
       (example_cknn\<lparr> self_is_sparse := False \<rparr>) X2
     = Some (Inr (Dense [[0, 1], [1, 0]], self')))"
  by (simp add: method_cknneighbors_graph_def cknneighbors_graph_def build_adjacency_def
      example_cknn_def X2_def ratio_X2 is_square_def radius_neighbors_graph_def set_diagonal_def
      upt_conv_Cons Let_def)

end
